theory Spec2Isabelle
  imports Complex_Main
begin

section \<open>Tokens\<close>

text \<open>
  The enum \<open>TokenType\<close> and the class \<open>Token\<close> of \<open>interpretor.ts\<close>. A token's
  \<open>value\<close> is a string or \<open>null\<close> (the constructor's default, used for \<open>RPAREN\<close>,
  \<open>COMMA\<close> and \<open>EOF\<close>); \<open>null\<close> is \<open>None\<close>. The fields are called \<open>tokType\<close> and
  \<open>tokValue\<close> here.
\<close>

datatype TokenType =
  ID | NUMBER | ASSIGN | LPAREN | RPAREN | COMMA | SEMICOLON
  | PLUS | MINUS | MULT | DIVI | POW | FACTORIAL | EOL | EOF

record Token =
  tokType :: TokenType
  tokValue :: "string option"

definition mkToken :: "TokenType \<Rightarrow> string option \<Rightarrow> Token" where
  "mkToken t v = \<lparr>tokType = t, tokValue = v\<rparr>"

datatype error =
  LexError "char" nat
  | SyntaxError TokenType TokenType
  | UndefinedSymbol string
  | UnexpectedBinaryToken TokenType

section \<open>Lexer\<close>

text \<open>
  The program text is a sequence of code units below 256, one \<open>char\<close> each. Reading the
  text at the cursor gives \<open>undefined\<close> past the end: \<open>None\<close>.
\<close>

record Lexer =
  ltext :: string
  lexCursor :: nat

definition advance :: "Lexer \<Rightarrow> Lexer" where
  "advance l = l\<lparr>lexCursor := lexCursor l + 1\<rparr>"

definition currentChar :: "Lexer \<Rightarrow> char option" where
  "currentChar l =
     (if lexCursor l < length (ltext l) then Some (ltext l ! lexCursor l) else None)"

text \<open>
  The three predicates are regular-expression tests on one character. \<open>RegExp.test\<close>
  turns \<open>undefined\<close> into the text \<open>undefined\<close>, which holds no digit, no dot and no
  white space; \<open>isAlphaNumeric\<close> excludes \<open>undefined\<close> itself. On one character,
  \<open>/[a-zA-Z][a-zA-Z0-9]*/\<close> matches exactly a letter. The class \<open>\s\<close> holds, below
  256, the code units 9 to 13, 32 and 160: it includes the line feed.
\<close>

definition charCode :: "char \<Rightarrow> nat" where
  "charCode c = of_char c"

definition isDigit :: "char \<Rightarrow> bool" where
  "isDigit c = (charCode (CHR ''0'') \<le> charCode c \<and> charCode c \<le> charCode (CHR ''9''))"

definition isLetter :: "char \<Rightarrow> bool" where
  "isLetter c =
     ((charCode (CHR ''a'') \<le> charCode c \<and> charCode c \<le> charCode (CHR ''z''))
      \<or> (charCode (CHR ''A'') \<le> charCode c \<and> charCode c \<le> charCode (CHR ''Z'')))"

definition isNumber :: "char option \<Rightarrow> bool" where
  "isNumber input = (case input of None \<Rightarrow> False | Some c \<Rightarrow> isDigit c \<or> c = CHR ''.'')"

definition isWhiteSpace :: "char option \<Rightarrow> bool" where
  "isWhiteSpace input =
     (case input of None \<Rightarrow> False
      | Some c \<Rightarrow> c \<in> set [CHR 0x09, CHR 0x0A, CHR 0x0B, CHR 0x0C, CHR 0x0D, CHR 0x20, CHR 0xA0])"

definition isAlphaNumeric :: "char option \<Rightarrow> bool" where
  "isAlphaNumeric input = (case input of None \<Rightarrow> False | Some c \<Rightarrow> isLetter c)"

text \<open>
  \<open>read\<close> takes one of these three predicates; \<open>StringAnalyzerPredicate\<close> names them.
\<close>

datatype StringAnalyzerPredicate = IsNumber | IsWhiteSpace | IsAlphaNumeric

fun applyPredicate :: "StringAnalyzerPredicate \<Rightarrow> char option \<Rightarrow> bool" where
  "applyPredicate IsNumber c = isNumber c"
| "applyPredicate IsWhiteSpace c = isWhiteSpace c"
| "applyPredicate IsAlphaNumeric c = isAlphaNumeric c"

definition charText :: "char option \<Rightarrow> string" where
  "charText c = (case c of None \<Rightarrow> ''undefined'' | Some x \<Rightarrow> [x])"

text \<open>The loop of \<open>read\<close>, with the token read so far as accumulator.\<close>

function readLoop :: "StringAnalyzerPredicate \<Rightarrow> Lexer \<Rightarrow> string \<Rightarrow> string \<times> Lexer" where
  "readLoop p l token =
     (if applyPredicate p (currentChar l)
      then readLoop p (advance l) (token @ charText (currentChar l))
      else (token, l))"
  by pat_completeness auto
termination
proof (relation "measure (\<lambda>(p, l, token). length (ltext l) - lexCursor l)")
  show "wf (measure (\<lambda>(p, l, token). length (ltext l) - lexCursor l))" by simp
next
  fix p :: StringAnalyzerPredicate and l :: Lexer and token :: string
  assume a: "applyPredicate p (currentChar l)"
  have "currentChar l \<noteq> None"
    using a by (cases p) (auto simp: isNumber_def isWhiteSpace_def isAlphaNumeric_def split: option.splits)
  then have "lexCursor l < length (ltext l)"
    by (simp add: currentChar_def split: if_splits)
  then show "((p, advance l, token @ charText (currentChar l)), (p, l, token))
      \<in> measure (\<lambda>(p, l, token). length (ltext l) - lexCursor l)"
    by (simp add: advance_def)
qed

definition read :: "StringAnalyzerPredicate \<Rightarrow> Lexer \<Rightarrow> string \<times> Lexer" where
  "read p l = readLoop p l []"

definition readNumber :: "Lexer \<Rightarrow> string \<times> Lexer" where
  "readNumber l = read IsNumber l"

definition readWhiteSpace :: "Lexer \<Rightarrow> string \<times> Lexer" where
  "readWhiteSpace l = read IsWhiteSpace l"

definition readAlphaNumeric :: "Lexer \<Rightarrow> string \<times> Lexer" where
  "readAlphaNumeric l = read IsAlphaNumeric l"

text \<open>
  \<open>String.prototype.toLowerCase\<close> on code units below 256: the capital letters are
  \<open>A\<close> to \<open>Z\<close> and 192 to 222 without 215, each 32 below its small letter.
\<close>

definition lowerChar :: "char \<Rightarrow> char" where
  "lowerChar c =
     (let n = charCode c
      in if (65 \<le> n \<and> n \<le> 90) \<or> (192 \<le> n \<and> n \<le> 222 \<and> n \<noteq> 215)
         then char_of (n + 32) else c)"

definition toLowerCase :: "string \<Rightarrow> string" where
  "toLowerCase s = map lowerChar s"

lemma readLoop_ltext: "ltext (snd (readLoop p l token)) = ltext l"
  by (induction p l token rule: readLoop.induct) (simp add: advance_def)

lemma readLoop_cursor_mono: "lexCursor l \<le> lexCursor (snd (readLoop p l token))"
proof (induction p l token rule: readLoop.induct)
  case (1 p l token)
  show ?case
  proof (cases "applyPredicate p (currentChar l)")
    case True
    with 1 have "lexCursor (advance l) \<le> lexCursor (snd (readLoop p l token))" by simp
    then show ?thesis by (simp add: advance_def)
  next
    case False
    then show ?thesis by simp
  qed
qed

lemma readLoop_cursor_step:
  assumes "applyPredicate p (currentChar l)"
  shows "lexCursor l < lexCursor (snd (readLoop p l token))"
proof -
  have "lexCursor (advance l) \<le> lexCursor (snd (readLoop p (advance l) (token @ charText (currentChar l))))"
    by (rule readLoop_cursor_mono)
  with assms show ?thesis by (simp add: advance_def)
qed

lemma applyPredicate_in_range:
  "applyPredicate p (currentChar l) \<Longrightarrow> lexCursor l < length (ltext l)"
  by (cases p) (auto simp: isNumber_def isWhiteSpace_def isAlphaNumeric_def currentChar_def
      split: if_splits option.splits)

text \<open>
  \<open>nextToken\<close>: the \<open>switch\<close> on the current character, case by case in the source's
  order. The result is the token and the lexer with its cursor moved; the \<open>throw\<close> of the
  default case is \<open>Inl\<close>.
\<close>

function nextToken :: "Lexer \<Rightarrow> error + (Token \<times> Lexer)" where
  "nextToken l =
     (let char = currentChar l in
      if char = Some (CHR 0x09) \<or> char = Some (CHR 0x0B) \<or> char = Some (CHR 0x20)
         \<or> char = Some (CHR 0x0C)
      then nextToken (snd (readWhiteSpace l))
      else if char = Some (CHR 0x0A) then Inr (mkToken EOL (Some [CHR 0x0A]), advance l)
      else if char = Some (CHR '';'') then Inr (mkToken SEMICOLON (Some '';''), advance l)
      else if char \<in> Some ` set ''0123456789.''
      then (case readNumber l of (num, l') \<Rightarrow> Inr (mkToken NUMBER (Some num), l'))
      else if char = Some (CHR ''+'') then Inr (mkToken PLUS (Some ''+''), advance l)
      else if char = Some (CHR ''-'') then Inr (mkToken MINUS (Some ''-''), advance l)
      else if char = Some (CHR ''*'') then Inr (mkToken MULT (Some ''*''), advance l)
      else if char = Some (CHR ''/'') then Inr (mkToken DIVI (Some ''/''), advance l)
      else if char = Some (CHR ''^'') then Inr (mkToken POW (Some ''^''), advance l)
      else if char = Some (CHR ''!'') then Inr (mkToken FACTORIAL (Some ''!''), advance l)
      else if char = Some (CHR ''='') then Inr (mkToken ASSIGN (Some ''=''), advance l)
      else if char = Some (CHR ''('') then Inr (mkToken LPAREN (Some ''(''), advance l)
      else if char = Some (CHR '')'') then Inr (mkToken RPAREN None, advance l)
      else if char = Some (CHR '','') then Inr (mkToken COMMA None, advance l)
      else if isAlphaNumeric char
      then (case readAlphaNumeric l of (ident, l') \<Rightarrow>
              if toLowerCase ident = ''e'' then Inr (mkToken ID (Some ''e''), l')
              else if toLowerCase ident = ''pi'' then Inr (mkToken ID (Some ''pi''), l')
              else Inr (mkToken ID (Some ident), l'))
      else (case char of
              Some c \<Rightarrow> Inl (LexError c (lexCursor l))
            | None \<Rightarrow> Inr (mkToken EOF None, l)))"
  by pat_completeness auto
termination
proof (relation "measure (\<lambda>l. length (ltext l) - lexCursor l)")
  show "wf (measure (\<lambda>l. length (ltext l) - lexCursor l))" by simp
next
  fix l :: Lexer and x :: "char option"
  assume x: "x = currentChar l"
    and ws: "x = Some (CHR 0x09) \<or> x = Some (CHR 0x0B) \<or> x = Some (CHR 0x20) \<or> x = Some (CHR 0x0C)"
  have p: "applyPredicate IsWhiteSpace (currentChar l)"
    using x ws by (auto simp: isWhiteSpace_def)
  have "lexCursor l < lexCursor (snd (readWhiteSpace l))"
    unfolding readWhiteSpace_def read_def using p by (rule readLoop_cursor_step)
  moreover have "ltext (snd (readWhiteSpace l)) = ltext l"
    unfolding readWhiteSpace_def read_def by (rule readLoop_ltext)
  moreover have "lexCursor l < length (ltext l)"
    using p by (rule applyPredicate_in_range)
  ultimately show "(snd (readWhiteSpace l), l) \<in> measure (\<lambda>l. length (ltext l) - lexCursor l)"
    by simp
qed

declare readLoop.simps [simp del] nextToken.simps [simp del]

section \<open>Abstract syntax\<close>

text \<open>
  The subclasses of \<open>AST\<close>, one constructor each, with the fields in the order of the
  class constructors. \<open>accept\<close> calls the visitor's method for the node's own class; the
  two visitors below are functions by cases on the constructor.
\<close>

datatype AST =
  UnaryExpr TokenType AST
  | ValueExpr "string option"
  | RefExpr Token
  | FactorialExpr AST
  | BinaryExpr AST TokenType AST
  | AssignExpr Token AST
  | StatementListExpr "AST list"

section \<open>Parser\<close>

text \<open>
  The parser holds its lexer and one token of lookahead. Every method returns the parser
  it leaves behind; \<open>this.error\<close> throws, which is \<open>Inl\<close>. The method \<open>term\<close> is
  \<open>term_p\<close> here and \<open>const\<close> is \<open>const_p\<close>.
\<close>

record Parser =
  lexer :: Lexer
  currentToken :: Token

definition newParser :: "string \<Rightarrow> error + Parser" where
  "newParser input =
     (case nextToken \<lparr>ltext = input, lexCursor = 0\<rparr> of
        Inl e \<Rightarrow> Inl e
      | Inr (t, l) \<Rightarrow> Inr \<lparr>lexer = l, currentToken = t\<rparr>)"

definition eat :: "TokenType \<Rightarrow> Parser \<Rightarrow> error + Parser" where
  "eat tokenType p =
     (if tokType (currentToken p) = tokenType
      then (case nextToken (lexer p) of
              Inl e \<Rightarrow> Inl e
            | Inr (t, l) \<Rightarrow> Inr \<lparr>lexer = l, currentToken = t\<rparr>)
      else Inl (SyntaxError tokenType (tokType (currentToken p))))"

definition const_p :: "Parser \<Rightarrow> error + (AST \<times> Parser)" where
  "const_p p =
     (case eat ID p of
        Inl e \<Rightarrow> Inl e
      | Inr p1 \<Rightarrow> Inr (RefExpr (currentToken p), p1))"

text \<open>
  A measure of what is left to parse: twice the characters after the cursor, and one more
  while the lookahead is not \<open>EOF\<close>. Every successful \<open>eat\<close> of a token other than
  \<open>EOF\<close> lowers it.
\<close>

definition remaining :: "Parser \<Rightarrow> nat" where
  "remaining p =
     2 * (length (ltext (lexer p)) - lexCursor (lexer p))
     + (if tokType (currentToken p) = EOF then 0 else 1)"

lemma nextToken_progress:
  "nextToken l = Inr (t, l') \<Longrightarrow>
     ltext l' = ltext l \<and> lexCursor l \<le> lexCursor l'
     \<and> (tokType t \<noteq> EOF \<longrightarrow> lexCursor l < lexCursor l' \<and> lexCursor l < length (ltext l))"
proof (induction l arbitrary: t l' rule: nextToken.induct)
  case (1 l)
  show ?case
  proof (cases "currentChar l = Some (CHR 0x09) \<or> currentChar l = Some (CHR 0x0B)
      \<or> currentChar l = Some (CHR 0x20) \<or> currentChar l = Some (CHR 0x0C)")
    case True
    then have eq: "nextToken l = nextToken (snd (readWhiteSpace l))"
      by (subst nextToken.simps) (simp add: Let_def)
    have ih: "ltext l' = ltext (snd (readWhiteSpace l)) \<and> lexCursor (snd (readWhiteSpace l)) \<le> lexCursor l'
       \<and> (tokType t \<noteq> EOF \<longrightarrow> lexCursor (snd (readWhiteSpace l)) < lexCursor l' \<and> lexCursor (snd (readWhiteSpace l)) < length (ltext (snd (readWhiteSpace l))))"
      using "1.IH"[OF refl True] "1.prems" eq by simp
    have p: "applyPredicate IsWhiteSpace (currentChar l)"
      using True by (auto simp: isWhiteSpace_def)
    have a: "lexCursor l < lexCursor (snd (readWhiteSpace l))"
      unfolding readWhiteSpace_def read_def using p by (rule readLoop_cursor_step)
    have b: "ltext (snd (readWhiteSpace l)) = ltext l"
      unfolding readWhiteSpace_def read_def by (rule readLoop_ltext)
    have c: "lexCursor l < length (ltext l)"
      using p by (rule applyPredicate_in_range)
    show ?thesis using ih a b c by auto
  next
    case False
    define D where "D = (currentChar l \<in> Some ` set ''0123456789.'')"
    define A where "A = isAlphaNumeric (currentChar l)"
    have rd: "\<And>q x. applyPredicate q (currentChar l) \<Longrightarrow> read q l = (x, l') \<Longrightarrow>
       ltext l' = ltext l \<and> lexCursor l < lexCursor l' \<and> lexCursor l < length (ltext l)"
      unfolding read_def using readLoop_ltext readLoop_cursor_step applyPredicate_in_range
      by (metis snd_conv)
    have num: "\<And>x. D \<Longrightarrow> read IsNumber l = (x, l') \<Longrightarrow>
       ltext l' = ltext l \<and> lexCursor l < lexCursor l' \<and> lexCursor l < length (ltext l)"
      by (rule rd) (auto simp: D_def isNumber_def isDigit_def charCode_def)
    have alp: "\<And>x. A \<Longrightarrow> read IsAlphaNumeric l = (x, l') \<Longrightarrow>
       ltext l' = ltext l \<and> lexCursor l < lexCursor l' \<and> lexCursor l < length (ltext l)"
      by (rule rd) (auto simp: A_def)
    have in_range: "\<And>c. currentChar l = Some c \<Longrightarrow> lexCursor l < length (ltext l)"
      by (simp add: currentChar_def split: if_splits)
    from "1.prems" False show ?thesis
      apply (subst (asm) nextToken.simps)
      apply (simp only: Let_def if_False D_def[symmetric] A_def[symmetric])
      apply (auto split: if_splits prod.splits option.splits simp: mkToken_def advance_def
          readNumber_def readAlphaNumeric_def dest: in_range num alp)
      done
  qed
qed


lemma eat_remaining:
  assumes "eat tokenType p = Inr p'" and "tokenType \<noteq> EOF"
  shows "remaining p' < remaining p"
proof -
  from assms obtain t l where tl: "nextToken (lexer p) = Inr (t, l)" "p' = \<lparr>lexer = l, currentToken = t\<rparr>"
    and ty: "tokType (currentToken p) = tokenType"
    by (auto simp: eat_def split: if_splits sum.splits)
  from nextToken_progress[OF tl(1)] tl(2) ty assms(2) show ?thesis
    by (auto simp: remaining_def)
qed

text \<open>
  \<open>expr\<close>, \<open>term\<close>, \<open>factor\<close> and \<open>closure\<close>. \<open>factor\<close> builds its \<open>ValueExpr\<close> from the
  lookahead before \<open>eat(NUMBER)\<close> checks it; when the check throws, the node is lost with
  it.
\<close>

function (domintros) expr :: "Parser \<Rightarrow> error + (AST \<times> Parser)"
  and term_p :: "Parser \<Rightarrow> error + (AST \<times> Parser)"
  and factor :: "Parser \<Rightarrow> error + (AST \<times> Parser)"
  and closure :: "Parser \<Rightarrow> error + (AST \<times> Parser)"
where
  "expr p =
     (case term_p p of
        Inl e \<Rightarrow> Inl e
      | Inr (term, p1) \<Rightarrow>
          if tokType (currentToken p1) = PLUS \<or> tokType (currentToken p1) = MINUS
          then (case eat (tokType (currentToken p1)) p1 of
                  Inl e \<Rightarrow> Inl e
                | Inr p2 \<Rightarrow>
                    (case expr p2 of
                       Inl e \<Rightarrow> Inl e
                     | Inr (rTerm, p3) \<Rightarrow>
                         Inr (BinaryExpr term (tokType (currentToken p1)) rTerm, p3)))
          else Inr (term, p1))"
| "term_p p =
     (case factor p of
        Inl e \<Rightarrow> Inl e
      | Inr (fac, p1) \<Rightarrow>
          if tokType (currentToken p1) = NUMBER
          then (case term_p p1 of
                  Inl e \<Rightarrow> Inl e
                | Inr (rTerm, p2) \<Rightarrow> Inr (BinaryExpr fac MULT rTerm, p2))
          else if tokType (currentToken p1) = MULT \<or> tokType (currentToken p1) = DIVI
                  \<or> tokType (currentToken p1) = POW
          then (case eat (tokType (currentToken p1)) p1 of
                  Inl e \<Rightarrow> Inl e
                | Inr p2 \<Rightarrow>
                    (case term_p p2 of
                       Inl e \<Rightarrow> Inl e
                     | Inr (rTerm, p3) \<Rightarrow>
                         Inr (BinaryExpr fac (tokType (currentToken p1)) rTerm, p3)))
          else Inr (fac, p1))"
| "factor p =
     (if tokType (currentToken p) = PLUS \<or> tokType (currentToken p) = MINUS
      then (case eat (tokType (currentToken p)) p of
              Inl e \<Rightarrow> Inl e
            | Inr p1 \<Rightarrow>
                (case factor p1 of
                   Inl e \<Rightarrow> Inl e
                 | Inr (f, p2) \<Rightarrow> Inr (UnaryExpr (tokType (currentToken p)) f, p2)))
      else if tokType (currentToken p) = FACTORIAL
      then (case eat FACTORIAL p of
              Inl e \<Rightarrow> Inl e
            | Inr p1 \<Rightarrow>
                (case factor p1 of
                   Inl e \<Rightarrow> Inl e
                 | Inr (f, p2) \<Rightarrow> Inr (FactorialExpr f, p2)))
      else if tokType (currentToken p) = LPAREN then closure p
      else if tokType (currentToken p) = ID then const_p p
      else (case eat NUMBER p of
              Inl e \<Rightarrow> Inl e
            | Inr p1 \<Rightarrow> Inr (ValueExpr (tokValue (currentToken p)), p1)))"
| "closure p =
     (case eat LPAREN p of
        Inl e \<Rightarrow> Inl e
      | Inr p1 \<Rightarrow>
          (case expr p1 of
             Inl e \<Rightarrow> Inl e
           | Inr (e, p2) \<Rightarrow>
               (case eat RPAREN p2 of
                  Inl e \<Rightarrow> Inl e
                | Inr p3 \<Rightarrow> Inr (e, p3))))"
  by pat_completeness auto


lemma const_p_remaining: "const_p p = Inr (a, p') \<Longrightarrow> remaining p' < remaining p"
  by (auto simp: const_p_def split: sum.splits dest: eat_remaining)

lemma parser_dom_remaining:
  "expr_term_p_factor_closure_dom (Inl (Inl p)) \<Longrightarrow> expr p = Inr (a, p') \<Longrightarrow> remaining p' < remaining p"
  "expr_term_p_factor_closure_dom (Inl (Inr q)) \<Longrightarrow> term_p q = Inr (b, q') \<Longrightarrow> remaining q' < remaining q"
  "expr_term_p_factor_closure_dom (Inr (Inl r)) \<Longrightarrow> factor r = Inr (c, r') \<Longrightarrow> remaining r' < remaining r"
  "expr_term_p_factor_closure_dom (Inr (Inr s)) \<Longrightarrow> closure s = Inr (d, s') \<Longrightarrow> remaining s' < remaining s"
proof (induction arbitrary: a p' and b q' and c r' and d s' rule: expr_term_p_factor_closure.pinduct)
  case (1 p)
  from "1.prems" "1.hyps" obtain t p1 where t: "term_p p = Inr (t, p1)"
    by (auto simp: expr.psimps split: sum.splits)
  have r1: "remaining p1 < remaining p" using "1.IH"(1)[OF t] .
  show ?case
  proof (cases "tokType (currentToken p1) = PLUS \<or> tokType (currentToken p1) = MINUS")
    case True
    with "1.prems" "1.hyps" t obtain p2 rt where
      e: "eat (tokType (currentToken p1)) p1 = Inr p2" and x: "expr p2 = Inr (rt, p')"
      by (auto simp: expr.psimps split: sum.splits)
    have "remaining p' < remaining p2" using "1.IH"(2)[OF t refl True e x] .
    moreover have "remaining p2 < remaining p1" using e True by (auto dest: eat_remaining)
    ultimately show ?thesis using r1 by simp
  next
    case False
    with "1.prems" "1.hyps" t have "p' = p1" by (auto simp: expr.psimps)
    then show ?thesis using r1 by simp
  qed
next
  case (2 p)
  from "2.prems" "2.hyps" obtain f p1 where f: "factor p = Inr (f, p1)"
    by (auto simp: term_p.psimps split: sum.splits)
  have r1: "remaining p1 < remaining p" using "2.IH"(1)[OF f] .
  consider (num) "tokType (currentToken p1) = NUMBER"
    | (op) "tokType (currentToken p1) \<noteq> NUMBER"
        "tokType (currentToken p1) = MULT \<or> tokType (currentToken p1) = DIVI \<or> tokType (currentToken p1) = POW"
    | (none) "tokType (currentToken p1) \<noteq> NUMBER"
        "\<not> (tokType (currentToken p1) = MULT \<or> tokType (currentToken p1) = DIVI \<or> tokType (currentToken p1) = POW)"
    by blast
  then show ?case
  proof cases
    case num
    with "2.prems" "2.hyps" f obtain rt where x: "term_p p1 = Inr (rt, q')"
      by (auto simp: term_p.psimps split: sum.splits)
    have "remaining q' < remaining p1" using "2.IH"(2)[OF f refl num x] .
    then show ?thesis using r1 by simp
  next
    case op
    with "2.prems" "2.hyps" f obtain p2 rt where
      e: "eat (tokType (currentToken p1)) p1 = Inr p2" and x: "term_p p2 = Inr (rt, q')"
      by (auto simp: term_p.psimps split: sum.splits)
    have "remaining q' < remaining p2" using "2.IH"(3)[OF f refl op e x] .
    moreover have "remaining p2 < remaining p1" using e op by (auto dest: eat_remaining)
    ultimately show ?thesis using r1 by simp
  next
    case none
    with "2.prems" "2.hyps" f have "q' = p1" by (auto simp: term_p.psimps)
    then show ?thesis using r1 by simp
  qed
next
  case (3 p)
  consider (sign) "tokType (currentToken p) = PLUS \<or> tokType (currentToken p) = MINUS"
    | (fact) "\<not> (tokType (currentToken p) = PLUS \<or> tokType (currentToken p) = MINUS)"
        "tokType (currentToken p) = FACTORIAL"
    | (paren) "\<not> (tokType (currentToken p) = PLUS \<or> tokType (currentToken p) = MINUS)"
        "tokType (currentToken p) \<noteq> FACTORIAL" "tokType (currentToken p) = LPAREN"
    | (other) "\<not> (tokType (currentToken p) = PLUS \<or> tokType (currentToken p) = MINUS)"
        "tokType (currentToken p) \<noteq> FACTORIAL" "tokType (currentToken p) \<noteq> LPAREN"
    by blast
  then show ?case
  proof cases
    case sign
    with "3.prems" "3.hyps" obtain p1 f where
      e: "eat (tokType (currentToken p)) p = Inr p1" and x: "factor p1 = Inr (f, r')"
      by (auto simp: factor.psimps split: sum.splits)
    have "remaining r' < remaining p1" using "3.IH"(1)[OF sign e x] .
    moreover have "remaining p1 < remaining p" using e sign by (auto dest: eat_remaining)
    ultimately show ?thesis by simp
  next
    case fact
    with "3.prems" "3.hyps" obtain p1 f where
      e: "eat FACTORIAL p = Inr p1" and x: "factor p1 = Inr (f, r')"
      by (auto simp: factor.psimps split: sum.splits)
    have "remaining r' < remaining p1" using "3.IH"(2)[OF fact e x] .
    moreover have "remaining p1 < remaining p" using e by (auto dest: eat_remaining)
    ultimately show ?thesis by simp
  next
    case paren
    with "3.prems" "3.hyps" have "closure p = Inr (c, r')"
      by (auto simp: factor.psimps)
    then show ?thesis using "3.IH"(3)[OF paren] by simp
  next
    case other
    with "3.prems" "3.hyps" show ?thesis
      by (auto simp: factor.psimps split: sum.splits if_splits
          dest: eat_remaining const_p_remaining)
  qed
next
  case (4 p)
  from "4.prems" "4.hyps" obtain p1 p2 where
    e1: "eat LPAREN p = Inr p1" and x: "expr p1 = Inr (d, p2)" and e2: "eat RPAREN p2 = Inr s'"
    by (auto simp: closure.psimps split: sum.splits)
  have "remaining p2 < remaining p1" using "4.IH"[OF e1 x] .
  moreover have "remaining p1 < remaining p" using e1 by (auto dest: eat_remaining)
  moreover have "remaining s' < remaining p2" using e2 by (auto dest: eat_remaining)
  ultimately show ?case by simp
qed

termination expr
proof (relation "measure
    (\<lambda>x. case x of
        Inl (Inl p) \<Rightarrow> 4 * remaining p + 3
      | Inl (Inr p) \<Rightarrow> 4 * remaining p + 2
      | Inr (Inl p) \<Rightarrow> 4 * remaining p + 1
      | Inr (Inr p) \<Rightarrow> 4 * remaining p)", goal_cases)
  case 1 show ?case by simp
next
  case 2 show ?case by simp
next
  case (3 p b x y ba)
  then show ?case
    using parser_dom_remaining(2)[of p x y] eat_remaining[of "tokType (currentToken y)" y ba]
    by auto
next
  case 4 show ?case by simp
next
  case (5 p b x y)
  then show ?case using parser_dom_remaining(3)[of p x y] by auto
next
  case (6 p b x y ba)
  then show ?case
    using parser_dom_remaining(3)[of p x y] eat_remaining[of "tokType (currentToken y)" y ba]
    by auto
next
  case (7 p b)
  then show ?case using eat_remaining[of "tokType (currentToken p)" p b] by auto
next
  case (8 p b)
  then show ?case using eat_remaining[of FACTORIAL p b] by auto
next
  case 9 show ?case by simp
next
  case (10 p b)
  then show ?case using eat_remaining[of LPAREN p b] by auto
qed



lemma parser_total:
  "expr_term_p_factor_closure_dom (Inl (Inl p))"
  "expr_term_p_factor_closure_dom (Inl (Inr q))"
  "expr_term_p_factor_closure_dom (Inr (Inl r))"
  "expr_term_p_factor_closure_dom (Inr (Inr s))"
  by (induction p and q and r and s rule: expr_term_p_factor_closure.induct)
    (auto intro: expr_term_p_factor_closure.domintros)

lemmas parser_remaining =
  parser_dom_remaining(1)[OF parser_total(1)] parser_dom_remaining(2)[OF parser_total(2)]
  parser_dom_remaining(3)[OF parser_total(3)] parser_dom_remaining(4)[OF parser_total(4)]

text \<open>
  \<open>declarations\<close>: the \<open>while\<close> loop, with \<open>assignList\<close> as accumulator. \<open>parse\<close>
  returns the root node.
\<close>

function declarationsLoop :: "Parser \<Rightarrow> AST list \<Rightarrow> error + AST" where
  "declarationsLoop p assignList =
     (if tokType (currentToken p) \<noteq> EOF
      then (case eat ID p of
              Inl e \<Rightarrow> Inl e
            | Inr p1 \<Rightarrow>
                (case eat ASSIGN p1 of
                   Inl e \<Rightarrow> Inl e
                 | Inr p2 \<Rightarrow>
                     (case expr p2 of
                        Inl e \<Rightarrow> Inl e
                      | Inr (ex, p3) \<Rightarrow>
                          if tokType (currentToken p3) = EOL
                             \<or> tokType (currentToken p3) = SEMICOLON
                          then (case eat (tokType (currentToken p3)) p3 of
                                  Inl e \<Rightarrow> Inl e
                                | Inr p4 \<Rightarrow>
                                    declarationsLoop p4
                                      (assignList @ [AssignExpr (currentToken p) ex]))
                          else declarationsLoop p3
                                 (assignList @ [AssignExpr (currentToken p) ex]))))
      else Inr (StatementListExpr assignList))"
  by pat_completeness auto
termination
proof (relation "measure (\<lambda>(p, assignList). remaining p)", goal_cases)
  case 1
  show ?case by simp
next
  case (2 p assignList p1 p2 b ex p3 p4)
  then show ?case
    using eat_remaining[of ID p p1] eat_remaining[of ASSIGN p1 p2] parser_remaining(1)[of p2 ex p3]
      eat_remaining[of "tokType (currentToken p3)" p3 p4]
    by auto
next
  case (3 p assignList p1 p2 b ex p3)
  then show ?case
    using eat_remaining[of ID p p1] eat_remaining[of ASSIGN p1 p2] parser_remaining(1)[of p2 ex p3]
    by auto
qed

declare expr.simps [simp del] term_p.simps [simp del] factor.simps [simp del]
  closure.simps [simp del] declarationsLoop.simps [simp del]

definition declarations :: "Parser \<Rightarrow> error + AST" where
  "declarations p = declarationsLoop p []"

definition parse :: "Parser \<Rightarrow> error + AST" where
  "parse p = declarations p"

definition parseText :: "string \<Rightarrow> error + AST" where
  "parseText input = (case newParser input of Inl e \<Rightarrow> Inl e | Inr p \<Rightarrow> parse p)"

section \<open>Numbers and values\<close>

text \<open>
  A JavaScript number is a finite value, one of the two infinities or \<open>NaN\<close>. The
  finite values are taken as rationals with exact arithmetic: rounding to 64 bits, overflow
  and the sign of zero are left out, and a division by zero takes the zero as positive.
  \<open>NaN\<close> spreads through every operation and compares false with everything.
\<close>

datatype number = Finite rat | PosInf | NegInf | NaN

fun numAdd :: "number \<Rightarrow> number \<Rightarrow> number" where
  "numAdd NaN y = NaN"
| "numAdd x NaN = NaN"
| "numAdd (Finite a) (Finite b) = Finite (a + b)"
| "numAdd PosInf NegInf = NaN"
| "numAdd NegInf PosInf = NaN"
| "numAdd PosInf y = PosInf"
| "numAdd NegInf y = NegInf"
| "numAdd (Finite a) y = y"

fun numSub :: "number \<Rightarrow> number \<Rightarrow> number" where
  "numSub NaN y = NaN"
| "numSub x NaN = NaN"
| "numSub (Finite a) (Finite b) = Finite (a - b)"
| "numSub PosInf PosInf = NaN"
| "numSub NegInf NegInf = NaN"
| "numSub PosInf y = PosInf"
| "numSub NegInf y = NegInf"
| "numSub (Finite a) PosInf = NegInf"
| "numSub (Finite a) NegInf = PosInf"

text \<open>The sign of a number other than \<open>NaN\<close>: \<open>-1\<close>, \<open>0\<close> or \<open>1\<close>.\<close>

fun numSign :: "number \<Rightarrow> int" where
  "numSign (Finite a) = (if a < 0 then -1 else if a = 0 then 0 else 1)"
| "numSign PosInf = 1"
| "numSign NegInf = -1"
| "numSign NaN = 0"

fun numMul :: "number \<Rightarrow> number \<Rightarrow> number" where
  "numMul NaN y = NaN"
| "numMul x NaN = NaN"
| "numMul (Finite a) (Finite b) = Finite (a * b)"
| "numMul x y =
     (if numSign x * numSign y = 0 then NaN
      else if numSign x * numSign y > 0 then PosInf else NegInf)"

fun numDiv :: "number \<Rightarrow> number \<Rightarrow> number" where
  "numDiv NaN y = NaN"
| "numDiv x NaN = NaN"
| "numDiv (Finite a) (Finite b) =
     (if b = 0 then (if a = 0 then NaN else if a > 0 then PosInf else NegInf)
      else Finite (a / b))"
| "numDiv (Finite a) y = Finite 0"
| "numDiv x (Finite b) =
     (if (0 \<le> b) = (x = PosInf) then PosInf else NegInf)"
| "numDiv x y = NaN"

fun numLe :: "number \<Rightarrow> number \<Rightarrow> bool" where
  "numLe NaN y = False"
| "numLe x NaN = False"
| "numLe (Finite a) (Finite b) = (a \<le> b)"
| "numLe NegInf y = True"
| "numLe x PosInf = True"
| "numLe x y = False"

text \<open>
  \<open>Math.PI\<close> and \<open>Math.E\<close> are the 64-bit values nearest to the two constants.
\<close>

definition MathPI :: number where
  "MathPI = Finite (884279719003555 / 281474976710656)"

definition MathE :: number where
  "MathE = Finite (6121026514868073 / 2251799813685248)"

text \<open>
  \<open>Number(s)\<close> on the text of a literal. \<open>null\<close> gives 0, the empty text gives 0; digits
  with at most one dot and at least one digit give their decimal value; a lone dot and a
  text with two dots give \<open>NaN\<close>. A \<open>NUMBER\<close> token holds digits and dots only; on a
  text with any other character \<open>toNumber\<close> gives \<open>NaN\<close>, as \<open>Number\<close> does unless
  the text is one of the forms no token can hold (white space around the digits, a sign,
  an exponent, a radix prefix, \<open>Infinity\<close>).
\<close>

definition digitsValue :: "string \<Rightarrow> nat" where
  "digitsValue s = foldl (\<lambda>n c. 10 * n + (charCode c - 48)) 0 s"

definition toNumber :: "string option \<Rightarrow> number" where
  "toNumber num =
     (case num of
        None \<Rightarrow> Finite 0
      | Some s \<Rightarrow>
          (let whole = takeWhile isDigit s; rest = dropWhile isDigit s
           in case rest of
                [] \<Rightarrow> Finite (of_nat (digitsValue whole))
              | c # decimals \<Rightarrow>
                  if c = CHR ''.'' \<and> list_all isDigit decimals \<and> \<not> (whole = [] \<and> decimals = [])
                  then Finite (of_nat (digitsValue whole)
                               + of_nat (digitsValue decimals) / 10 ^ length decimals)
                  else NaN))"

text \<open>
  What the evaluator's stack and symbol table can hold at run time: \<open>undefined\<close> (a
  \<open>pop\<close> of the empty stack), a number, or a value that is neither, \<open>Foreign\<close>: a member
  the table inherits from \<open>Object.prototype\<close>, or a text that \<open>+\<close> has built from one.
  Such a text holds the source text of a function, so it never reads as a number:
  \<open>ToNumber\<close> gives \<open>NaN\<close> on \<open>undefined\<close> and on every foreign value, and \<open>+\<close> with
  a foreign operand concatenates.
\<close>

datatype val = Undefined | Num number | Foreign

fun toNum :: "val \<Rightarrow> number" where
  "toNum (Num n) = n"
| "toNum Undefined = NaN"
| "toNum Foreign = NaN"

definition valAdd :: "val \<Rightarrow> val \<Rightarrow> val" where
  "valAdd x y = (if x = Foreign \<or> y = Foreign then Foreign else Num (numAdd (toNum x) (toNum y)))"

text \<open>
  The two tables, \<open>scope\<close> and \<open>constTable\<close>, are object literals: a read \<open>table[key]\<close>
  finds the table's own property or else a member of \<open>Object.prototype\<close>. The members
  whose names are made of letters are listed; the lexer's identifiers are runs of letters,
  so no other key reaches a table. A key \<open>null\<close> reads as the text \<open>null\<close>.
\<close>

definition objectPrototypeKeys :: "string list" where
  "objectPrototypeKeys =
     [''constructor'', ''hasOwnProperty'', ''isPrototypeOf'', ''propertyIsEnumerable'',
      ''toLocaleString'', ''toString'', ''valueOf'']"

datatype 'a property = Absent | Own 'a | Inherited

definition getProperty :: "(string \<rightharpoonup> 'a) \<Rightarrow> string \<Rightarrow> 'a property" where
  "getProperty table key =
     (case table key of
        Some v \<Rightarrow> Own v
      | None \<Rightarrow> if key \<in> set objectPrototypeKeys then Inherited else Absent)"

definition stringOf :: "string option \<Rightarrow> string" where
  "stringOf s = (case s of None \<Rightarrow> ''null'' | Some x \<Rightarrow> x)"

section \<open>The two visitors\<close>

text \<open>
  Both visitor classes have the fields \<open>stack\<close> and \<open>output\<close> (\<open>outputAcc\<close> here).
  The array \<open>stack\<close> is a list whose head is the array's last element: \<open>push\<close> is
  \<open>#\<close>, and \<open>pop\<close> takes the head, or gives \<open>undefined\<close> on the empty array and
  leaves it empty.
\<close>

record 'a Visitor =
  stack :: "'a list"
  outputAcc :: 'a

definition pop :: "'a \<Rightarrow> 'a list \<Rightarrow> 'a \<times> 'a list" where
  "pop undef stk = (case stk of [] \<Rightarrow> (undef, []) | x # rest \<Rightarrow> (x, rest))"

subsection \<open>ASTCalculatorVisitor\<close>

record CalcVisitor = "val Visitor" +
  scope :: "string \<rightharpoonup> val"

definition newCalcVisitor :: CalcVisitor where
  "newCalcVisitor =
     \<lparr>stack = [], outputAcc = Num (Finite 0),
      scope = [''pi'' \<mapsto> Num MathPI, ''e'' \<mapsto> Num MathE]\<rparr>"

text \<open>A read \<open>this.scope[key]\<close>, and \<open>getOutput\<close>, which reads the key \<open>out\<close>.\<close>

definition scopeGet :: "CalcVisitor \<Rightarrow> string \<Rightarrow> val" where
  "scopeGet v key =
     (case getProperty (scope v) key of
        Own x \<Rightarrow> x
      | Inherited \<Rightarrow> Foreign
      | Absent \<Rightarrow> Undefined)"

definition getOutput :: "CalcVisitor \<Rightarrow> val" where
  "getOutput v = scopeGet v ''out''"

text \<open>
  The evaluator can throw, and its factorial loop may never end. A visit gives \<open>None\<close>
  when it does not return, \<open>Some (Inl e)\<close> when it throws \<open>e\<close>, and \<open>Some (Inr v)\<close> with
  the visitor it leaves behind otherwise.
\<close>

definition andThen ::
  "(error + 'a) option \<Rightarrow> ('a \<Rightarrow> (error + 'b) option) \<Rightarrow> (error + 'b) option" where
  "andThen m f =
     (case m of None \<Rightarrow> None | Some (Inl e) \<Rightarrow> Some (Inl e) | Some (Inr x) \<Rightarrow> f x)"

text \<open>
  \<open>factorial\<close>: the \<open>for\<close> loop with \<open>val\<close> and \<open>i\<close>. The comparison \<open>i <= num\<close>
  turns \<open>num\<close> into a number.
\<close>

partial_function (option) factorialLoop :: "number \<Rightarrow> number \<Rightarrow> number \<Rightarrow> number option" where
  "factorialLoop val i num =
     (if numLe i num then factorialLoop (numMul val i) (numAdd i (Finite 1)) num
      else Some val)"

declare factorialLoop.simps [code]

definition factorial :: "val \<Rightarrow> number option" where
  "factorial num = factorialLoop (Finite 1) (Finite 2) (toNum num)"

text \<open>
  \<open>resolve\<close> of the evaluator. \<open>Math.pow\<close> belongs to the host and is a parameter. The
  operators other than \<open>+\<close> turn both operands into numbers.
\<close>

definition calcResolve ::
  "(number \<Rightarrow> number \<Rightarrow> number) \<Rightarrow> TokenType \<Rightarrow> val \<Rightarrow> val \<Rightarrow> error + val" where
  "calcResolve mathPow t left right =
     (if t = PLUS then Inr (valAdd left right)
      else if t = MINUS then Inr (Num (numSub (toNum left) (toNum right)))
      else if t = DIVI then Inr (Num (numDiv (toNum left) (toNum right)))
      else if t = MULT then Inr (Num (numMul (toNum left) (toNum right)))
      else if t = POW then Inr (Num (mathPow (toNum left) (toNum right)))
      else Inl (UnexpectedBinaryToken t))"

text \<open>
  The end of four of the visit methods: \<open>if (this.stack.length === 0) this.output += result\<close>.
\<close>

definition calcFinish :: "val \<Rightarrow> CalcVisitor \<Rightarrow> CalcVisitor" where
  "calcFinish result v =
     (if length (stack v) = 0 then v\<lparr>outputAcc := valAdd (outputAcc v) result\<rparr> else v)"

fun calcVisit ::
    "(number \<Rightarrow> number \<Rightarrow> number) \<Rightarrow> AST \<Rightarrow> CalcVisitor \<Rightarrow> (error + CalcVisitor) option"
  and calcVisitAll ::
    "(number \<Rightarrow> number \<Rightarrow> number) \<Rightarrow> AST list \<Rightarrow> CalcVisitor \<Rightarrow> (error + CalcVisitor) option"
where
  "calcVisit mathPow (UnaryExpr opToken ex) v =
     andThen (calcVisit mathPow ex v) (\<lambda>v1.
       let signFactor = (if opToken = MINUS then Finite (- 1) else Finite 1);
           (x, stk) = pop Undefined (stack v1);
           result = Num (numMul signFactor (toNum x))
       in Some (Inr (calcFinish result (v1\<lparr>stack := result # stk\<rparr>))))"
| "calcVisit mathPow (ValueExpr num) v =
     Some (Inr (v\<lparr>stack := Num (toNumber num) # stack v\<rparr>))"
| "calcVisit mathPow (RefExpr constToken) v =
     (let result = scopeGet v (stringOf (tokValue constToken))
      in if result = Undefined
         then Some (Inl (UndefinedSymbol (stringOf (tokValue constToken))))
         else Some (Inr (calcFinish result (v\<lparr>stack := result # stack v\<rparr>))))"
| "calcVisit mathPow (FactorialExpr fac) v =
     andThen (calcVisit mathPow fac v) (\<lambda>v1.
       let (x, stk) = pop Undefined (stack v1)
       in case factorial x of
            None \<Rightarrow> None
          | Some n \<Rightarrow> Some (Inr (calcFinish (Num n) (v1\<lparr>stack := Num n # stk\<rparr>))))"
| "calcVisit mathPow (BinaryExpr left t right) v =
     andThen (calcVisit mathPow left v) (\<lambda>v1.
       let (l, stk1) = pop Undefined (stack v1)
       in andThen (calcVisit mathPow right (v1\<lparr>stack := stk1\<rparr>)) (\<lambda>v2.
            let (r, stk2) = pop Undefined (stack v2)
            in case calcResolve mathPow t l r of
                 Inl e \<Rightarrow> Some (Inl e)
               | Inr result \<Rightarrow>
                   Some (Inr (calcFinish result (v2\<lparr>stack := result # stk2\<rparr>)))))"
| "calcVisit mathPow (AssignExpr ident ex) v =
     andThen (calcVisit mathPow ex v) (\<lambda>v1.
       let (x, stk) = pop Undefined (stack v1)
       in Some (Inr (v1\<lparr>stack := stk, scope := (scope v1)(stringOf (tokValue ident) \<mapsto> x)\<rparr>)))"
| "calcVisit mathPow (StatementListExpr statements) v = calcVisitAll mathPow statements v"
| "calcVisitAll mathPow [] v = Some (Inr v)"
| "calcVisitAll mathPow (s # rest) v =
     andThen (calcVisit mathPow s v) (calcVisitAll mathPow rest)"

subsection \<open>ASTPrinterVisitor\<close>

text \<open>
  The printer's stack holds texts; a \<open>pop\<close> of the empty stack reads \<open>undefined\<close> in a
  template. A read of \<open>constTable\<close> that finds an inherited member prints the host's text
  for that function, the parameter \<open>inheritedText\<close>. The printer's \<open>getOutput\<close>, which
  joins the stack from its first element on, is \<open>printerOutput\<close> here.
\<close>

definition newPrinterVisitor :: "string Visitor" where
  "newPrinterVisitor = \<lparr>stack = [], outputAcc = []\<rparr>"

definition printerOutput :: "string Visitor \<Rightarrow> string" where
  "printerOutput v = concat (rev (stack v))"

definition constTable :: "string \<rightharpoonup> string" where
  "constTable = [''pi'' \<mapsto> ''&pi;'', ''e'' \<mapsto> ''<i>e</i>'']"

text \<open>
  The \<open>instanceof\<close> tests, and the read of the field \<open>token\<close>, which only a
  \<open>BinaryExpr\<close> has: on any other node it gives \<open>undefined\<close>.
\<close>

fun isValueExpr :: "AST \<Rightarrow> bool" where
  "isValueExpr (ValueExpr num) = True"
| "isValueExpr a = False"

fun isFactorialExpr :: "AST \<Rightarrow> bool" where
  "isFactorialExpr (FactorialExpr fac) = True"
| "isFactorialExpr a = False"

fun isRefExpr :: "AST \<Rightarrow> bool" where
  "isRefExpr (RefExpr constToken) = True"
| "isRefExpr a = False"

fun isBinaryExpr :: "AST \<Rightarrow> bool" where
  "isBinaryExpr (BinaryExpr left t right) = True"
| "isBinaryExpr a = False"

fun tokenField :: "AST \<Rightarrow> TokenType option" where
  "tokenField (BinaryExpr left t right) = Some t"
| "tokenField a = None"

definition printResolve :: "TokenType \<Rightarrow> string \<Rightarrow> string \<Rightarrow> error + string" where
  "printResolve t left right =
     (if t = PLUS then Inr (left @ '' &plus; '' @ right)
      else if t = MINUS then Inr (left @ '' &minus; '' @ right)
      else if t = DIVI then Inr (''<sup>'' @ left @ ''</sup>&frasl;<sub>'' @ right @ ''</sub>'')
      else if t = MULT then Inr (left @ '' &times; '' @ right)
      else if t = POW then Inr (left @ ''<sup>'' @ right @ ''</sup>'')
      else Inl (UnexpectedBinaryToken t))"

text \<open>
  The end of every visit method: \<open>if (this.stack.length === 0) this.output = this.stack.join('')\<close>.
\<close>

definition printFinish :: "string Visitor \<Rightarrow> string Visitor" where
  "printFinish v = (if length (stack v) = 0 then v\<lparr>outputAcc := printerOutput v\<rparr> else v)"

fun printVisit :: "(string \<Rightarrow> string) \<Rightarrow> AST \<Rightarrow> string Visitor \<Rightarrow> error + string Visitor"
  and printVisitAll ::
    "(string \<Rightarrow> string) \<Rightarrow> AST list \<Rightarrow> string Visitor \<Rightarrow> error + string Visitor"
where
  "printVisit inheritedText (UnaryExpr opToken ex) v =
     (case printVisit inheritedText ex v of
        Inl e \<Rightarrow> Inl e
      | Inr v1 \<Rightarrow>
          let signFactor = (if opToken = MINUS then ''&minus;'' else []);
              (s, stk) = pop ''undefined'' (stack v1)
          in if isValueExpr ex \<or> isFactorialExpr ex
             then Inr (printFinish (v1\<lparr>stack := (signFactor @ s) # stk\<rparr>))
             else Inr (printFinish (v1\<lparr>stack := (signFactor @ ''('' @ s @ '')'') # stk\<rparr>)))"
| "printVisit inheritedText (ValueExpr num) v =
     Inr (printFinish (v\<lparr>stack := stringOf num # stack v\<rparr>))"
| "printVisit inheritedText (RefExpr constToken) v =
     (let result = (case getProperty constTable (stringOf (tokValue constToken)) of
                      Own s \<Rightarrow> s
                    | Inherited \<Rightarrow> inheritedText (stringOf (tokValue constToken))
                    | Absent \<Rightarrow> stringOf (tokValue constToken))
      in Inr (printFinish (v\<lparr>stack := result # stack v\<rparr>)))"
| "printVisit inheritedText (FactorialExpr fac) v =
     (case printVisit inheritedText fac v of
        Inl e \<Rightarrow> Inl e
      | Inr v1 \<Rightarrow>
          let (s, stk) = pop ''undefined'' (stack v1)
          in if isValueExpr fac \<or> isFactorialExpr fac \<or> isRefExpr fac
             then Inr (printFinish (v1\<lparr>stack := (''!'' @ s) # stk\<rparr>))
             else Inr (printFinish (v1\<lparr>stack := (''!('' @ s @ '')'') # stk\<rparr>)))"
| "printVisit inheritedText (BinaryExpr left t right) v =
     (case printVisit inheritedText left v of
        Inl e \<Rightarrow> Inl e
      | Inr v1 \<Rightarrow>
          let (ls, stk1) = pop ''undefined'' (stack v1);
              leftText =
                (if isValueExpr left \<or> isFactorialExpr left
                    \<or> (isBinaryExpr left
                        \<and> (tokenField left = Some DIVI \<or> tokenField left = Some t
                            \<or> tokenField left = Some POW))
                    \<or> isRefExpr left
                 then ls else ''('' @ ls @ '')'')
          in case printVisit inheritedText right (v1\<lparr>stack := stk1\<rparr>) of
               Inl e \<Rightarrow> Inl e
             | Inr v2 \<Rightarrow>
                 let (rs, stk2) = pop ''undefined'' (stack v2);
                     rightText =
                       (if isValueExpr right \<or> isFactorialExpr right
                           \<or> t = POW
                           \<or> (isBinaryExpr right
                               \<and> (tokenField right = Some DIVI \<or> tokenField right = Some t)
                               \<or> tokenField right = Some POW)
                           \<or> isRefExpr right
                        then rs else ''('' @ rs @ '')'')
                 in case printResolve t leftText rightText of
                      Inl e \<Rightarrow> Inl e
                    | Inr s \<Rightarrow> Inr (printFinish (v2\<lparr>stack := s # stk2\<rparr>)))"
| "printVisit inheritedText (AssignExpr ident ex) v =
     (case printVisit inheritedText ex v of
        Inl e \<Rightarrow> Inl e
      | Inr v1 \<Rightarrow>
          let (s, stk) = pop ''undefined'' (stack v1)
          in Inr (printFinish (v1\<lparr>stack := (stringOf (tokValue ident) @ '' = '' @ s) # stk\<rparr>)))"
| "printVisit inheritedText (StatementListExpr statements) v =
     (case printVisitAll inheritedText statements v of
        Inl e \<Rightarrow> Inl e
      | Inr v1 \<Rightarrow> Inr (printFinish v1))"
| "printVisitAll inheritedText [] v = Inr v"
| "printVisitAll inheritedText (s # rest) v =
     (case printVisit inheritedText s v of
        Inl e \<Rightarrow> Inl e
      | Inr v1 \<Rightarrow>
          let (x, stk) = pop ''undefined'' (stack v1)
          in printVisitAll inheritedText rest (v1\<lparr>stack := (x @ ''<br>'') # stk\<rparr>))"

section \<open>Intepretor\<close>

text \<open>
  \<open>interpret(input, visitor)\<close> builds a parser on the input, parses, and lets the root
  accept the visitor: once for each visitor class.
\<close>

definition interpretCalc ::
  "(number \<Rightarrow> number \<Rightarrow> number) \<Rightarrow> string \<Rightarrow> CalcVisitor \<Rightarrow> (error + CalcVisitor) option" where
  "interpretCalc mathPow input visitor =
     (case parseText input of
        Inl e \<Rightarrow> Some (Inl e)
      | Inr rootAST \<Rightarrow> calcVisit mathPow rootAST visitor)"

definition interpretPrint ::
  "(string \<Rightarrow> string) \<Rightarrow> string \<Rightarrow> string Visitor \<Rightarrow> error + string Visitor" where
  "interpretPrint inheritedText input visitor =
     (case parseText input of
        Inl e \<Rightarrow> Inl e
      | Inr rootAST \<Rightarrow> printVisit inheritedText rootAST visitor)"

text \<open>
  The first three lines of the key handler: a fresh \<open>ASTCalculatorVisitor\<close>,
  \<open>interpret\<close>, and \<open>getOutput\<close>.
\<close>

definition calculate :: "(number \<Rightarrow> number \<Rightarrow> number) \<Rightarrow> string \<Rightarrow> (error + val) option" where
  "calculate mathPow input =
     (case interpretCalc mathPow input newCalcVisitor of
        None \<Rightarrow> None
      | Some (Inl e) \<Rightarrow> Some (Inl e)
      | Some (Inr v) \<Rightarrow> Some (Inr (getOutput v)))"

text \<open>
  The next three lines of the handler: a fresh \<open>ASTPrinterVisitor\<close>, \<open>interpret\<close>, and
  the printer's \<open>getOutput\<close>.
\<close>

definition printProgram :: "(string \<Rightarrow> string) \<Rightarrow> string \<Rightarrow> error + string" where
  "printProgram inheritedText input =
     (case interpretPrint inheritedText input newPrinterVisitor of
        Inl e \<Rightarrow> Inl e
      | Inr v \<Rightarrow> Inr (printerOutput v))"

text \<open>
  The specification's condition for a bare right operand, in its own words: the operand
  is a literal, a factorial or a reference, or the parent's operator is \<open>POW\<close>, or the
  operand is a binary node whose operator is \<open>DIVI\<close> or the parent's operator.
\<close>

definition claimedRightBare :: "TokenType \<Rightarrow> AST \<Rightarrow> bool" where
  "claimedRightBare t right =
     (isValueExpr right \<or> isFactorialExpr right \<or> isRefExpr right \<or> t = POW
      \<or> (isBinaryExpr right \<and> (tokenField right = Some DIVI \<or> tokenField right = Some t)))"

section \<open>Shapes of trees\<close>

text \<open>
  The parser builds the root from assignments and each assignment from an expression: a
  tree of the five expression classes. \<open>assignedKeys\<close> lists the keys a tree assigns.
\<close>

fun isExpression :: "AST \<Rightarrow> bool" where
  "isExpression (ValueExpr num) = True"
| "isExpression (RefExpr constToken) = True"
| "isExpression (UnaryExpr opToken ex) = isExpression ex"
| "isExpression (FactorialExpr fac) = isExpression fac"
| "isExpression (BinaryExpr left t right) = (isExpression left \<and> isExpression right)"
| "isExpression (AssignExpr ident ex) = False"
| "isExpression (StatementListExpr statements) = False"



fun assignedKeys :: "AST \<Rightarrow> string list" where
  "assignedKeys (AssignExpr ident ex) = stringOf (tokValue ident) # assignedKeys ex"
| "assignedKeys (UnaryExpr opToken ex) = assignedKeys ex"
| "assignedKeys (FactorialExpr fac) = assignedKeys fac"
| "assignedKeys (BinaryExpr left t right) = assignedKeys left @ assignedKeys right"
| "assignedKeys (StatementListExpr statements) = concat (map assignedKeys statements)"
| "assignedKeys (ValueExpr num) = []"
| "assignedKeys (RefExpr constToken) = []"

section \<open>Parsing: associativity and implicit multiplication\<close>

text \<open>
  C1. Binary operators of one grammar level nest to the right. Let \<open>a\<close>, \<open>b\<close> and \<open>c\<close> be
  three operands, each parsed by \<open>factor\<close>, with the operator \<open>op1\<close> between the first
  two and \<open>op2\<close> between the last two, both from \<open>+ -\<close> or both from \<open>* / ^\<close>, and no
  further operand or operator after \<open>c\<close>. Then \<open>expr\<close> returns the node of \<open>op1\<close> with
  \<open>a\<close> on the left and the node \<open>b op2 c\<close> on the right. Evaluating \<open>out = 10 - 2 - 3\<close>
  binds \<open>out\<close> to 11, and evaluating \<open>out = 100 / 2 / 5\<close> binds \<open>out\<close> to 250.
\<close>

theorem binary_operators_right_associative:
  "(factor p = Inr (a, p1) \<and> tokType (currentToken p1) = op1 \<and> eat op1 p1 = Inr p2
      \<and> factor p2 = Inr (b, p3) \<and> tokType (currentToken p3) = op2 \<and> eat op2 p3 = Inr p4
      \<and> factor p4 = Inr (c, p5)
      \<and> tokType (currentToken p5) \<notin> {NUMBER, PLUS, MINUS, MULT, DIVI, POW}
      \<and> ((op1 \<in> {PLUS, MINUS} \<and> op2 \<in> {PLUS, MINUS})
          \<or> (op1 \<in> {MULT, DIVI, POW} \<and> op2 \<in> {MULT, DIVI, POW}))
     \<longrightarrow> expr p = Inr (BinaryExpr a op1 (BinaryExpr b op2 c), p5))
   \<and> calculate mathPow ''out = 10 - 2 - 3'' = Some (Inr (Num (Finite 11)))
   \<and> calculate mathPow ''out = 100 / 2 / 5'' = Some (Inr (Num (Finite 250)))"
proof (intro conjI impI)
  assume h: "factor p = Inr (a, p1) \<and> tokType (currentToken p1) = op1 \<and> eat op1 p1 = Inr p2
      \<and> factor p2 = Inr (b, p3) \<and> tokType (currentToken p3) = op2 \<and> eat op2 p3 = Inr p4
      \<and> factor p4 = Inr (c, p5)
      \<and> tokType (currentToken p5) \<notin> {NUMBER, PLUS, MINUS, MULT, DIVI, POW}
      \<and> ((op1 \<in> {PLUS, MINUS} \<and> op2 \<in> {PLUS, MINUS})
          \<or> (op1 \<in> {MULT, DIVI, POW} \<and> op2 \<in> {MULT, DIVI, POW}))"
  have tc: "term_p p4 = Inr (c, p5)"
    using h by (subst term_p.simps) auto
  have ec: "expr p4 = Inr (c, p5)"
    using h tc by (subst expr.simps) auto
  from h consider (additive) "op1 \<in> {PLUS, MINUS}" "op2 \<in> {PLUS, MINUS}"
    | (multiplicative) "op1 \<in> {MULT, DIVI, POW}" "op2 \<in> {MULT, DIVI, POW}"
    by blast
  then show "expr p = Inr (BinaryExpr a op1 (BinaryExpr b op2 c), p5)"
  proof cases
    case additive
    have tb: "term_p p2 = Inr (b, p3)"
      using h additive by (subst term_p.simps) auto
    have eb: "expr p2 = Inr (BinaryExpr b op2 c, p5)"
      using h additive tb ec by (subst expr.simps) auto
    have ta: "term_p p = Inr (a, p1)"
      using h additive by (subst term_p.simps) auto
    show ?thesis
      using h additive ta eb by (subst expr.simps) auto
  next
    case multiplicative
    have tb: "term_p p2 = Inr (BinaryExpr b op2 c, p5)"
      using h multiplicative tc by (subst term_p.simps) auto
    have ta: "term_p p = Inr (BinaryExpr a op1 (BinaryExpr b op2 c), p5)"
      using h multiplicative tb by (subst term_p.simps) auto
    show ?thesis
      using h ta by (subst expr.simps) auto
  qed
next
  show "calculate mathPow ''out = 10 - 2 - 3'' = Some (Inr (Num (Finite 11)))"
    by code_simp
next
  show "calculate mathPow ''out = 100 / 2 / 5'' = Some (Inr (Num (Finite 250)))"
    by code_simp
qed

theorem binary_operators_right_associative_witness:
  "newParser ''10-2-3''
     = Inr \<lparr>lexer = \<lparr>ltext = ''10-2-3'', lexCursor = 2\<rparr>,
            currentToken = mkToken NUMBER (Some ''10'')\<rparr>
   \<and> expr \<lparr>lexer = \<lparr>ltext = ''10-2-3'', lexCursor = 2\<rparr>,
            currentToken = mkToken NUMBER (Some ''10'')\<rparr>
     = Inr (BinaryExpr (ValueExpr (Some ''10'')) MINUS
              (BinaryExpr (ValueExpr (Some ''2'')) MINUS (ValueExpr (Some ''3''))),
            \<lparr>lexer = \<lparr>ltext = ''10-2-3'', lexCursor = 6\<rparr>,
             currentToken = mkToken EOF None\<rparr>)"
proof -
  let ?at = "\<lambda>n t. \<lparr>lexer = \<lparr>ltext = ''10-2-3'', lexCursor = n\<rparr>, currentToken = t\<rparr>"
  let ?p = "?at 2 (mkToken NUMBER (Some ''10''))"
  let ?p1 = "?at 3 (mkToken MINUS (Some ''-''))"
  let ?p2 = "?at 4 (mkToken NUMBER (Some ''2''))"
  let ?p3 = "?at 5 (mkToken MINUS (Some ''-''))"
  let ?p4 = "?at 6 (mkToken NUMBER (Some ''3''))"
  let ?p5 = "?at 6 (mkToken EOF None)"
  have start: "newParser ''10-2-3'' = Inr ?p" by code_simp
  have f1: "factor ?p = Inr (ValueExpr (Some ''10''), ?p1)" by code_simp
  have t1: "tokType (currentToken ?p1) = MINUS" by code_simp
  have e1: "eat MINUS ?p1 = Inr ?p2" by code_simp
  have f2: "factor ?p2 = Inr (ValueExpr (Some ''2''), ?p3)" by code_simp
  have t2: "tokType (currentToken ?p3) = MINUS" by code_simp
  have e2: "eat MINUS ?p3 = Inr ?p4" by code_simp
  have f3: "factor ?p4 = Inr (ValueExpr (Some ''3''), ?p5)" by code_simp
  have t3: "tokType (currentToken ?p5) \<notin> {NUMBER, PLUS, MINUS, MULT, DIVI, POW}"
    by (simp add: mkToken_def)
  have "expr ?p = Inr (BinaryExpr (ValueExpr (Some ''10'')) MINUS
              (BinaryExpr (ValueExpr (Some ''2'')) MINUS (ValueExpr (Some ''3''))), ?p5)"
    using binary_operators_right_associative[where p = ?p and a = "ValueExpr (Some ''10'')"
        and ?p1.0 = ?p1 and ?op1.0 = MINUS and ?p2.0 = ?p2 and b = "ValueExpr (Some ''2'')"
        and ?p3.0 = ?p3 and ?op2.0 = MINUS and ?p4.0 = ?p4 and c = "ValueExpr (Some ''3'')"
        and ?p5.0 = ?p5 and mathPow = "\<lambda>x y. NaN"]
      f1 t1 e1 f2 t2 e2 f3 t3
    by blast
  with start show ?thesis by simp
qed

text \<open>
  C3. Implicit multiplication. Let \<open>factor\<close> return the node \<open>f\<close> and leave the
  lookahead \<open>t\<close>. If \<open>t\<close> is a \<open>NUMBER\<close>, \<open>term\<close> parses a fresh term \<open>r\<close> there,
  without eating anything, and returns the \<open>MULT\<close> node of \<open>f\<close> and \<open>r\<close>. If \<open>t\<close> is
  \<open>MULT\<close>, \<open>DIVI\<close> or \<open>POW\<close>, the node carries that explicit operator, which is eaten.
  On every other lookahead, an identifier and a left parenthesis among them, \<open>term\<close>
  returns \<open>f\<close> alone and consumes nothing more. So \<open>out = 2 3\<close> parses as the assignment
  of \<open>2 * 3\<close>, while \<open>out = 2pi\<close> and \<open>out = 2(3)\<close> fail with a syntax error.
\<close>

theorem implicit_multiplication_only_before_number:
  "(factor p = Inr (f, p1) \<longrightarrow>
      (tokType (currentToken p1) = NUMBER \<longrightarrow>
         term_p p = (case term_p p1 of
                       Inl e \<Rightarrow> Inl e
                     | Inr (rTerm, p2) \<Rightarrow> Inr (BinaryExpr f MULT rTerm, p2)))
      \<and> (tokType (currentToken p1) \<in> {MULT, DIVI, POW} \<longrightarrow>
         term_p p = (case eat (tokType (currentToken p1)) p1 of
                       Inl e \<Rightarrow> Inl e
                     | Inr p2 \<Rightarrow>
                         (case term_p p2 of
                            Inl e \<Rightarrow> Inl e
                          | Inr (rTerm, p3) \<Rightarrow>
                              Inr (BinaryExpr f (tokType (currentToken p1)) rTerm, p3))))
      \<and> (tokType (currentToken p1) \<notin> {NUMBER, MULT, DIVI, POW} \<longrightarrow> term_p p = Inr (f, p1)))
   \<and> parseText ''out = 2 3''
       = Inr (StatementListExpr
                [AssignExpr (mkToken ID (Some ''out''))
                   (BinaryExpr (ValueExpr (Some ''2'')) MULT (ValueExpr (Some ''3'')))])
   \<and> parseText ''out = 2pi'' = Inl (SyntaxError ASSIGN EOF)
   \<and> parseText ''out = 2(3)'' = Inl (SyntaxError ID LPAREN)"
proof (intro conjI impI)
  assume f: "factor p = Inr (f, p1)"
  {
    assume "tokType (currentToken p1) = NUMBER"
    with f show "term_p p = (case term_p p1 of
                       Inl e \<Rightarrow> Inl e
                     | Inr (rTerm, p2) \<Rightarrow> Inr (BinaryExpr f MULT rTerm, p2))"
      by (subst term_p.simps) simp
  next
    assume "tokType (currentToken p1) \<in> {MULT, DIVI, POW}"
    with f show "term_p p = (case eat (tokType (currentToken p1)) p1 of
                       Inl e \<Rightarrow> Inl e
                     | Inr p2 \<Rightarrow>
                         (case term_p p2 of
                            Inl e \<Rightarrow> Inl e
                          | Inr (rTerm, p3) \<Rightarrow>
                              Inr (BinaryExpr f (tokType (currentToken p1)) rTerm, p3)))"
      by (subst term_p.simps) auto
  next
    assume "tokType (currentToken p1) \<notin> {NUMBER, MULT, DIVI, POW}"
    with f show "term_p p = Inr (f, p1)"
      by (subst term_p.simps) simp
  }
next
  show "parseText ''out = 2 3''
       = Inr (StatementListExpr
                [AssignExpr (mkToken ID (Some ''out''))
                   (BinaryExpr (ValueExpr (Some ''2'')) MULT (ValueExpr (Some ''3'')))])"
    by code_simp
next
  show "parseText ''out = 2pi'' = Inl (SyntaxError ASSIGN EOF)"
    by code_simp
next
  show "parseText ''out = 2(3)'' = Inl (SyntaxError ID LPAREN)"
    by code_simp
qed

theorem implicit_multiplication_only_before_number_witness:
  "factor \<lparr>lexer = \<lparr>ltext = ''2 3'', lexCursor = 1\<rparr>, currentToken = mkToken NUMBER (Some ''2'')\<rparr>
     = Inr (ValueExpr (Some ''2''),
            \<lparr>lexer = \<lparr>ltext = ''2 3'', lexCursor = 3\<rparr>, currentToken = mkToken NUMBER (Some ''3'')\<rparr>)
   \<and> term_p \<lparr>lexer = \<lparr>ltext = ''2 3'', lexCursor = 1\<rparr>, currentToken = mkToken NUMBER (Some ''2'')\<rparr>
     = Inr (BinaryExpr (ValueExpr (Some ''2'')) MULT (ValueExpr (Some ''3'')),
            \<lparr>lexer = \<lparr>ltext = ''2 3'', lexCursor = 3\<rparr>, currentToken = mkToken EOF None\<rparr>)
   \<and> factor \<lparr>lexer = \<lparr>ltext = ''2pi'', lexCursor = 1\<rparr>, currentToken = mkToken NUMBER (Some ''2'')\<rparr>
     = Inr (ValueExpr (Some ''2''),
            \<lparr>lexer = \<lparr>ltext = ''2pi'', lexCursor = 3\<rparr>, currentToken = mkToken ID (Some ''pi'')\<rparr>)
   \<and> term_p \<lparr>lexer = \<lparr>ltext = ''2pi'', lexCursor = 1\<rparr>, currentToken = mkToken NUMBER (Some ''2'')\<rparr>
     = Inr (ValueExpr (Some ''2''),
            \<lparr>lexer = \<lparr>ltext = ''2pi'', lexCursor = 3\<rparr>, currentToken = mkToken ID (Some ''pi'')\<rparr>)"
proof -
  let ?p = "\<lparr>lexer = \<lparr>ltext = ''2 3'', lexCursor = 1\<rparr>, currentToken = mkToken NUMBER (Some ''2'')\<rparr>"
  let ?p1 = "\<lparr>lexer = \<lparr>ltext = ''2 3'', lexCursor = 3\<rparr>, currentToken = mkToken NUMBER (Some ''3'')\<rparr>"
  let ?p2 = "\<lparr>lexer = \<lparr>ltext = ''2 3'', lexCursor = 3\<rparr>, currentToken = mkToken EOF None\<rparr>"
  let ?q = "\<lparr>lexer = \<lparr>ltext = ''2pi'', lexCursor = 1\<rparr>, currentToken = mkToken NUMBER (Some ''2'')\<rparr>"
  let ?q1 = "\<lparr>lexer = \<lparr>ltext = ''2pi'', lexCursor = 3\<rparr>, currentToken = mkToken ID (Some ''pi'')\<rparr>"
  have f: "factor ?p = Inr (ValueExpr (Some ''2''), ?p1)" by code_simp
  have n: "tokType (currentToken ?p1) = NUMBER" by (simp add: mkToken_def)
  have r: "term_p ?p1 = Inr (ValueExpr (Some ''3''), ?p2)" by code_simp
  have g: "factor ?q = Inr (ValueExpr (Some ''2''), ?q1)" by code_simp
  have i: "tokType (currentToken ?q1) \<notin> {NUMBER, MULT, DIVI, POW}" by (simp add: mkToken_def)
  have "term_p ?p = Inr (BinaryExpr (ValueExpr (Some ''2'')) MULT (ValueExpr (Some ''3'')), ?p2)"
    using implicit_multiplication_only_before_number[where p = ?p and f = "ValueExpr (Some ''2'')"
        and ?p1.0 = ?p1] f n r
    by simp
  moreover have "term_p ?q = Inr (ValueExpr (Some ''2''), ?q1)"
    using implicit_multiplication_only_before_number[where p = ?q and f = "ValueExpr (Some ''2'')"
        and ?p1.0 = ?q1] g i
    by blast
  ultimately show ?thesis using f g by simp
qed

section \<open>Factorial\<close>




lemma factorialLoop_PosInf: "factorialLoop val (Finite a) PosInf = None"
proof (cases "factorialLoop val (Finite a) PosInf")
  case None
  then show ?thesis .
next
  case (Some y)
  have "PosInf = PosInf \<and> (\<exists>b. Finite a = Finite b) \<longrightarrow> False"
  proof (rule factorialLoop.raw_induct[where P = "\<lambda>v i num r. num = PosInf \<and> (\<exists>b. i = Finite b) \<longrightarrow> False",
        OF _ Some], goal_cases)
    case (1 loop v i num r)
    show ?case
    proof
      assume h: "num = PosInf \<and> (\<exists>b. i = Finite b)"
      then obtain b where b: "i = Finite b" by blast
      from 1(2) h b have "loop (numMul v i) (Finite (b + 1)) PosInf = Some r"
        by simp
      from 1(1)[OF this] show False by blast
    qed
  qed
  then show ?thesis by blast
qed





lemma factorial_PosInf_diverges: "factorial (Num PosInf) = None"
  by (simp add: factorial_def factorialLoop_PosInf)

section \<open>The evaluator on parsed programs\<close>

text \<open>
  A visit of an expression pushes one value, which is not \<open>undefined\<close>, and leaves the
  symbol table alone; a visit of an assignment leaves the stack as it found it; a visit
  changes the table at assigned keys only; and every tree the parser returns is a program.
\<close>

lemma andThen_Some_Inr:
  "andThen m f = Some (Inr y) \<longleftrightarrow> (\<exists>x. m = Some (Inr x) \<and> f x = Some (Inr y))"
  by (auto simp: andThen_def split: option.splits sum.splits)

lemma expression_pushes:
  "isExpression ex \<Longrightarrow> calcVisit mathPow ex v = Some (Inr v') \<Longrightarrow>
     \<exists>x. stack v' = x # stack v \<and> x \<noteq> Undefined \<and> scope v' = scope v"
proof (induction ex arbitrary: v v' rule: isExpression.induct)
  case (1 num)
  then show ?case by auto
next
  case (2 constToken)
  then show ?case by (auto simp: Let_def calcFinish_def split: if_splits)
next
  case (3 opToken ex)
  from "3.prems" obtain v1 where v1: "calcVisit mathPow ex v = Some (Inr v1)"
    by (auto simp: andThen_Some_Inr)
  from "3.IH"[OF _ v1] "3.prems"(1) obtain x where x: "stack v1 = x # stack v" "scope v1 = scope v"
    by auto
  from "3.prems"(2) v1 x show ?case
    by (auto simp: andThen_def pop_def Let_def calcFinish_def)
next
  case (4 fac)
  from "4.prems" obtain v1 where v1: "calcVisit mathPow fac v = Some (Inr v1)"
    by (auto simp: andThen_Some_Inr)
  from "4.IH"[OF _ v1] "4.prems"(1) obtain x where x: "stack v1 = x # stack v" "scope v1 = scope v"
    by auto
  from "4.prems"(2) v1 x show ?case
    by (auto simp: andThen_def pop_def Let_def calcFinish_def split: option.splits)
next
  case (5 left t right)
  from "5.prems" obtain v1 where v1: "calcVisit mathPow left v = Some (Inr v1)"
    by (auto simp: andThen_Some_Inr)
  from "5.IH"(1)[OF _ v1] "5.prems"(1) obtain l where l: "stack v1 = l # stack v" "scope v1 = scope v"
    by auto
  from "5.prems"(2) v1 l obtain v2 where
    v2: "calcVisit mathPow right (v1\<lparr>stack := stack v\<rparr>) = Some (Inr v2)"
    by (auto simp: andThen_Some_Inr pop_def Let_def)
  from "5.IH"(2)[OF _ v2] "5.prems"(1) obtain r where r: "stack v2 = r # stack v" "scope v2 = scope v"
    using l by auto
  from "5.prems"(2) v1 l v2 r show ?case
    by (auto simp: andThen_def pop_def Let_def calcFinish_def calcResolve_def valAdd_def
        split: sum.splits if_splits)
next
  case (6 ident ex)
  then show ?case by simp
next
  case (7 statements)
  then show ?case by simp
qed




lemma calcFinish_fields:
  "scope (calcFinish r v) = scope v" "stack (calcFinish r v) = stack v"
  by (simp_all add: calcFinish_def)

lemma calcVisit_Binary_Some:
  "calcVisit mathPow (BinaryExpr left t right) v = Some (Inr v') \<longleftrightarrow>
     (\<exists>v1 v2 result.
        calcVisit mathPow left v = Some (Inr v1)
        \<and> calcVisit mathPow right (v1\<lparr>stack := snd (pop Undefined (stack v1))\<rparr>) = Some (Inr v2)
        \<and> calcResolve mathPow t (fst (pop Undefined (stack v1))) (fst (pop Undefined (stack v2)))
            = Inr result
        \<and> v' = calcFinish result (v2\<lparr>stack := result # snd (pop Undefined (stack v2))\<rparr>))"
proof -
  have "(case r of Inl e \<Rightarrow> Some (Inl e) | Inr result \<Rightarrow> Some (Inr (g result))) = Some (Inr v')
      \<longleftrightarrow> (\<exists>result. r = Inr result \<and> v' = g result)"
    for r :: "error + val" and g
    by (cases r) auto
  then show ?thesis
    by (simp add: andThen_Some_Inr Let_def case_prod_beta)
qed

lemma scope_frame:
  "calcVisit mathPow a v = Some (Inr v') \<Longrightarrow> k \<notin> set (assignedKeys a) \<Longrightarrow> scope v' k = scope v k"
proof (induction a arbitrary: v v')
  case (UnaryExpr opToken ex)
  then show ?case
    by (auto simp: andThen_Some_Inr Let_def calcFinish_fields case_prod_beta)
next
  case (ValueExpr num)
  then show ?case by auto
next
  case (RefExpr constToken)
  then show ?case by (auto simp: Let_def calcFinish_fields split: if_splits)
next
  case (FactorialExpr fac)
  then show ?case
    by (auto simp: andThen_Some_Inr Let_def calcFinish_fields case_prod_beta split: option.splits)
next
  case (BinaryExpr left t right)
  from BinaryExpr.prems(1)[unfolded calcVisit_Binary_Some]
  obtain v1 v2 where v1: "calcVisit mathPow left v = Some (Inr v1)"
    and v2: "calcVisit mathPow right (v1\<lparr>stack := snd (pop Undefined (stack v1))\<rparr>) = Some (Inr v2)"
    and sc: "scope v' = scope v2"
    by (auto simp: calcFinish_fields)
  have "scope v1 k = scope v k" using BinaryExpr.IH(1)[OF v1] BinaryExpr.prems(2) by simp
  moreover have "scope v2 k = scope (v1\<lparr>stack := snd (pop Undefined (stack v1))\<rparr>) k"
    using BinaryExpr.IH(2)[OF v2] BinaryExpr.prems(2) by simp
  ultimately show ?case using sc by simp
next
  case (AssignExpr ident ex)
  then show ?case
    by (auto simp: andThen_Some_Inr Let_def case_prod_beta)
next
  case (StatementListExpr statements)
  have "calcVisitAll mathPow ss w = Some (Inr w') \<Longrightarrow> set ss \<subseteq> set statements \<Longrightarrow>
      k \<notin> set (concat (map assignedKeys ss)) \<Longrightarrow> scope w' k = scope w k" for ss w w'
  proof (induction ss arbitrary: w)
    case Nil
    then show ?case by simp
  next
    case (Cons s ss)
    from Cons.prems(1) obtain w1 where w1: "calcVisit mathPow s w = Some (Inr w1)"
      and rest: "calcVisitAll mathPow ss w1 = Some (Inr w')"
      by (auto simp: andThen_Some_Inr)
    have "scope w1 k = scope w k"
      using StatementListExpr.IH[OF _ w1] Cons.prems(2,3) by simp
    moreover have "scope w' k = scope w1 k"
      using Cons.IH[OF rest] Cons.prems(2,3) by simp
    ultimately show ?case by simp
  qed
  with StatementListExpr.prems show ?case by simp
qed





section \<open>Evaluation of programs\<close>



lemma scopeGet_fresh:
  "scope v key = None \<Longrightarrow> key \<notin> set objectPrototypeKeys \<Longrightarrow> scopeGet v key = Undefined"
  by (simp add: scopeGet_def getProperty_def)

text \<open>
  C4. The statements run in order, each on the evaluator its predecessor left behind, and
  \<open>getOutput\<close> reads the key \<open>out\<close> of the symbol table. The program
  \<open>x = 2; y = x * 3; out = y + 1\<close> ends with \<open>x\<close> at 2, \<open>y\<close> at 6 and the result 7.
  When the visit of a tree that assigns no \<open>out\<close> returns on a fresh evaluator, the
  result is \<open>undefined\<close>: a missing \<open>out\<close> is no failure of its own and gives no
  default, as the program \<open>x = 2\<close> shows.
\<close>

theorem statements_in_order_and_result_is_out:
  "calcVisit mathPow (StatementListExpr (s # rest)) v
     = andThen (calcVisit mathPow s v) (calcVisit mathPow (StatementListExpr rest))
   \<and> getOutput v = scopeGet v ''out''
   \<and> (case interpretCalc mathPow ''x = 2; y = x * 3; out = y + 1'' newCalcVisitor of
         Some (Inr w) \<Rightarrow>
           scopeGet w ''x'' = Num (Finite 2) \<and> scopeGet w ''y'' = Num (Finite 6)
           \<and> getOutput w = Num (Finite 7)
       | _ \<Rightarrow> False)
   \<and> (calcVisit mathPow rootAST newCalcVisitor = Some (Inr w)
        \<and> ''out'' \<notin> set (assignedKeys rootAST)
      \<longrightarrow> getOutput w = Undefined)
   \<and> (case interpretCalc mathPow ''x = 2'' newCalcVisitor of
         Some (Inr w) \<Rightarrow> getOutput w = Undefined
       | _ \<Rightarrow> False)"
proof (intro conjI impI)
  have "calcVisitAll mathPow rest = calcVisit mathPow (StatementListExpr rest)"
    by (rule ext) simp
  then show "calcVisit mathPow (StatementListExpr (s # rest)) v
     = andThen (calcVisit mathPow s v) (calcVisit mathPow (StatementListExpr rest))"
    by simp
next
  show "getOutput v = scopeGet v ''out''" by (simp add: getOutput_def)
next
  show "case interpretCalc mathPow ''x = 2; y = x * 3; out = y + 1'' newCalcVisitor of
         Some (Inr w) \<Rightarrow>
           scopeGet w ''x'' = Num (Finite 2) \<and> scopeGet w ''y'' = Num (Finite 6)
           \<and> getOutput w = Num (Finite 7)
       | _ \<Rightarrow> False"
    by code_simp
next
  assume h: "calcVisit mathPow rootAST newCalcVisitor = Some (Inr w)
        \<and> ''out'' \<notin> set (assignedKeys rootAST)"
  then have "scope w ''out'' = scope newCalcVisitor ''out''"
    using scope_frame[of mathPow rootAST newCalcVisitor w "''out''"] by blast
  then have "scope w ''out'' = None" by (simp add: newCalcVisitor_def)
  then show "getOutput w = Undefined"
    by (simp add: getOutput_def scopeGet_fresh objectPrototypeKeys_def)
next
  show "case interpretCalc mathPow ''x = 2'' newCalcVisitor of
         Some (Inr w) \<Rightarrow> getOutput w = Undefined
       | _ \<Rightarrow> False"
    by code_simp
qed

theorem statements_in_order_and_result_is_out_witness:
  "\<exists>w. interpretCalc (\<lambda>x y. NaN) ''x = 2'' newCalcVisitor = Some (Inr w)
       \<and> ''out'' \<notin> set (assignedKeys (StatementListExpr [AssignExpr (mkToken ID (Some ''x''))
                                       (ValueExpr (Some ''2''))]))
       \<and> getOutput w = Undefined"
proof -
  let ?pow = "\<lambda>x y. NaN"
  let ?root = "StatementListExpr [AssignExpr (mkToken ID (Some ''x'')) (ValueExpr (Some ''2''))]"
  have p: "parseText ''x = 2'' = Inr ?root" by code_simp
  have "(case calcVisit ?pow ?root newCalcVisitor of Some (Inr w) \<Rightarrow> True | _ \<Rightarrow> False)"
    by code_simp
  then obtain w where w: "calcVisit ?pow ?root newCalcVisitor = Some (Inr w)"
    by (auto split: option.splits sum.splits)
  have k: "''out'' \<notin> set (assignedKeys ?root)"
    by (simp add: mkToken_def stringOf_def)
  from statements_in_order_and_result_is_out[where mathPow = ?pow and rootAST = ?root and w = w] w k
  have "getOutput w = Undefined" by blast
  with p w k show ?thesis by (simp add: interpretCalc_def)
qed

text \<open>
  C9. The built-in constants are not protected. A fresh evaluator holds \<open>pi\<close> and \<open>e\<close>.
  Let the target of an assignment carry the key \<open>pi\<close> or \<open>e\<close> and let its expression
  evaluate to \<open>x\<close>. Then the assignment returns with \<open>x\<close> stored under that key; the
  key still holds \<open>x\<close> after any later visit that does not assign it again; and wherever
  the key holds \<open>x\<close>, a reference to the name pushes \<open>x\<close>. So \<open>pi = 5; out = pi\<close>
  binds \<open>out\<close> to 5, and so do \<open>PI = 5; out = pi\<close> and \<open>E = 5; out = e\<close>, whose
  targets the lexer turns into \<open>pi\<close> and \<open>e\<close>.
\<close>

theorem constants_can_be_reassigned:
  "(key \<in> {''pi'', ''e''} \<and> tokValue ident = Some key \<and> isExpression ex
      \<and> calcVisit mathPow ex v = Some (Inr v1)
    \<longrightarrow> (\<exists>x. stack v1 = x # stack v
           \<and> calcVisit mathPow (AssignExpr ident ex) v
               = Some (Inr (v1\<lparr>stack := stack v, scope := (scope v1)(key \<mapsto> x)\<rparr>))
           \<and> (\<forall>later w.
                 calcVisit mathPow later (v1\<lparr>stack := stack v, scope := (scope v1)(key \<mapsto> x)\<rparr>)
                   = Some (Inr w)
                 \<and> key \<notin> set (assignedKeys later)
                 \<longrightarrow> scope w key = Some x)
           \<and> (\<forall>w. scope w key = Some x
                 \<longrightarrow> calcVisit mathPow (RefExpr ident) w = Some (Inr (w\<lparr>stack := x # stack w\<rparr>)))))
   \<and> scopeGet newCalcVisitor ''pi'' = Num MathPI
   \<and> scopeGet newCalcVisitor ''e'' = Num MathE
   \<and> calculate mathPow ''pi = 5; out = pi'' = Some (Inr (Num (Finite 5)))
   \<and> calculate mathPow ''PI = 5; out = pi'' = Some (Inr (Num (Finite 5)))
   \<and> calculate mathPow ''E = 5; out = e'' = Some (Inr (Num (Finite 5)))"
proof (intro conjI impI)
  assume h: "key \<in> {''pi'', ''e''} \<and> tokValue ident = Some key \<and> isExpression ex
      \<and> calcVisit mathPow ex v = Some (Inr v1)"
  then obtain x where x: "stack v1 = x # stack v" "x \<noteq> Undefined"
    using expression_pushes[of ex mathPow v v1] by blast
  let ?v2 = "v1\<lparr>stack := stack v, scope := (scope v1)(key \<mapsto> x)\<rparr>"
  have a: "calcVisit mathPow (AssignExpr ident ex) v = Some (Inr ?v2)"
    using h x by (simp add: andThen_def pop_def stringOf_def)
  have b: "\<forall>later w. calcVisit mathPow later ?v2 = Some (Inr w) \<and> key \<notin> set (assignedKeys later)
      \<longrightarrow> scope w key = Some x"
    using scope_frame[of mathPow _ ?v2 _ key] by auto
  have c: "\<forall>w. scope w key = Some x
      \<longrightarrow> calcVisit mathPow (RefExpr ident) w = Some (Inr (w\<lparr>stack := x # stack w\<rparr>))"
    using h x by (simp add: scopeGet_def getProperty_def stringOf_def calcFinish_def)
  from x a b c show "\<exists>x. stack v1 = x # stack v
           \<and> calcVisit mathPow (AssignExpr ident ex) v
               = Some (Inr (v1\<lparr>stack := stack v, scope := (scope v1)(key \<mapsto> x)\<rparr>))
           \<and> (\<forall>later w.
                 calcVisit mathPow later (v1\<lparr>stack := stack v, scope := (scope v1)(key \<mapsto> x)\<rparr>)
                   = Some (Inr w)
                 \<and> key \<notin> set (assignedKeys later)
                 \<longrightarrow> scope w key = Some x)
           \<and> (\<forall>w. scope w key = Some x
                 \<longrightarrow> calcVisit mathPow (RefExpr ident) w = Some (Inr (w\<lparr>stack := x # stack w\<rparr>)))"
    by blast
next
  show "scopeGet newCalcVisitor ''pi'' = Num MathPI"
    by (simp add: scopeGet_def getProperty_def newCalcVisitor_def)
next
  show "scopeGet newCalcVisitor ''e'' = Num MathE"
    by (simp add: scopeGet_def getProperty_def newCalcVisitor_def)
next
  show "calculate mathPow ''pi = 5; out = pi'' = Some (Inr (Num (Finite 5)))"
    by code_simp
next
  show "calculate mathPow ''PI = 5; out = pi'' = Some (Inr (Num (Finite 5)))"
    by code_simp
next
  show "calculate mathPow ''E = 5; out = e'' = Some (Inr (Num (Finite 5)))"
    by code_simp
qed

theorem constants_can_be_reassigned_witness:
  "calcVisit (\<lambda>x y. NaN) (AssignExpr (mkToken ID (Some ''pi'')) (ValueExpr (Some ''5''))) newCalcVisitor
     = Some (Inr (newCalcVisitor\<lparr>scope := (scope newCalcVisitor)(''pi'' \<mapsto> Num (Finite 5))\<rparr>))
   \<and> calcVisit (\<lambda>x y. NaN) (RefExpr (mkToken ID (Some ''pi'')))
         (newCalcVisitor\<lparr>scope := (scope newCalcVisitor)(''pi'' \<mapsto> Num (Finite 5))\<rparr>)
     = Some (Inr (newCalcVisitor\<lparr>stack := [Num (Finite 5)],
                                  scope := (scope newCalcVisitor)(''pi'' \<mapsto> Num (Finite 5))\<rparr>))"
proof -
  let ?pow = "\<lambda>x y. NaN"
  let ?id = "mkToken ID (Some ''pi'')"
  let ?ex = "ValueExpr (Some ''5'')"
  let ?v1 = "newCalcVisitor\<lparr>stack := [Num (Finite 5)]\<rparr>"
  let ?v2 = "newCalcVisitor\<lparr>scope := (scope newCalcVisitor)(''pi'' \<mapsto> Num (Finite 5))\<rparr>"
  have n: "toNumber (Some ''5'') = Finite 5" by code_simp
  have s: "stack newCalcVisitor = []" by (simp add: newCalcVisitor_def)
  have v: "calcVisit ?pow ?ex newCalcVisitor = Some (Inr ?v1)" using n s by simp
  have k: "''pi'' \<in> {''pi'', ''e''}" by simp
  have t: "tokValue ?id = Some ''pi''" by (simp add: mkToken_def)
  have e: "isExpression ?ex" by simp
  from constants_can_be_reassigned[where key = "''pi''" and ident = ?id and ex = ?ex
      and mathPow = ?pow and v = newCalcVisitor and ?v1.0 = ?v1] k t e v
  obtain x where x: "stack ?v1 = x # stack newCalcVisitor"
    and a: "calcVisit ?pow (AssignExpr ?id ?ex) newCalcVisitor
        = Some (Inr (?v1\<lparr>stack := stack newCalcVisitor, scope := (scope ?v1)(''pi'' \<mapsto> x)\<rparr>))"
    and c: "\<forall>w. scope w ''pi'' = Some x
        \<longrightarrow> calcVisit ?pow (RefExpr ?id) w = Some (Inr (w\<lparr>stack := x # stack w\<rparr>))"
    by blast
  from x have x5: "x = Num (Finite 5)" by simp
  have eq: "?v1\<lparr>stack := stack newCalcVisitor, scope := (scope ?v1)(''pi'' \<mapsto> x)\<rparr> = ?v2"
    using x5 s by simp
  have "scope ?v2 ''pi'' = Some x" using x5 by simp
  with c have "calcVisit ?pow (RefExpr ?id) ?v2 = Some (Inr (?v2\<lparr>stack := x # stack ?v2\<rparr>))"
    by blast
  with a eq x5 s show ?thesis by simp
qed

section \<open>References and operands, case by case\<close>

text \<open>
  What the printer does with the operand of a sign and of a factorial, and what the two
  visitors do with a reference whose name is in no table, or is only inherited.
\<close>

lemma unary_operand_parentheses:
  "printVisit inheritedText ex v = Inr v1 \<Longrightarrow>
     printVisit inheritedText (UnaryExpr opToken ex) v
       = Inr (printFinish (v1\<lparr>stack :=
            ((if opToken = MINUS then ''&minus;'' else [])
             @ (if isValueExpr ex \<or> isFactorialExpr ex
                then fst (pop ''undefined'' (stack v1))
                else ''('' @ fst (pop ''undefined'' (stack v1)) @ '')''))
            # snd (pop ''undefined'' (stack v1))\<rparr>))"
  by (simp add: Let_def case_prod_beta)

lemma factorial_operand_parentheses:
  "printVisit inheritedText fac v = Inr v1 \<Longrightarrow>
     printVisit inheritedText (FactorialExpr fac) v
       = Inr (printFinish (v1\<lparr>stack :=
            (''!'' @ (if isValueExpr fac \<or> isFactorialExpr fac \<or> isRefExpr fac
                     then fst (pop ''undefined'' (stack v1))
                     else ''('' @ fst (pop ''undefined'' (stack v1)) @ '')''))
            # snd (pop ''undefined'' (stack v1))\<rparr>))"
  by (simp add: Let_def case_prod_beta)

lemma unbound_reference_throws:
  "getProperty (scope v) (stringOf (tokValue constToken)) = Absent \<Longrightarrow>
     calcVisit mathPow (RefExpr constToken) v
       = Some (Inl (UndefinedSymbol (stringOf (tokValue constToken))))"
  by (simp add: scopeGet_def)

lemma unbound_reference_prints_itself:
  "getProperty constTable (stringOf (tokValue constToken)) = Absent \<Longrightarrow>
     printVisit inheritedText (RefExpr constToken) v
       = Inr (v\<lparr>stack := stringOf (tokValue constToken) # stack v\<rparr>)"
  by (simp add: printFinish_def)

lemma inherited_reference_is_pushed:
  "getProperty (scope v) (stringOf (tokValue constToken)) = Inherited \<Longrightarrow>
     calcVisit mathPow (RefExpr constToken) v = Some (Inr (v\<lparr>stack := Foreign # stack v\<rparr>))"
  by (simp add: scopeGet_def calcFinish_def)

section \<open>Printing\<close>

text \<open>
  The specification's condition fails on a power under a product: in \<open>2 * 3 ^ 4\<close> the
  right operand is a binary node with \<open>POW\<close> under a parent with \<open>MULT\<close>, the condition
  is false, and the printer leaves the operand bare.
\<close>

theorem right_operand_parentheses_counterexample:
  "\<not> claimedRightBare MULT (BinaryExpr (ValueExpr (Some ''3'')) POW (ValueExpr (Some ''4'')))
   \<and> printProgram id ''out = 2 * 3 ^ 4'' = Inr ''out = 2 &times; 3<sup>4</sup><br>''"
  by code_simp

text \<open>
  C6, amended. The printer leaves the right operand of a binary node without parentheses
  exactly when the operand is a literal, a factorial or a reference, or the parent's
  operator is \<open>POW\<close>, or the operand is a binary node whose operator is \<open>DIVI\<close>, the
  parent's operator or \<open>POW\<close>; otherwise it wraps the operand in parentheses. With
  \<open>v1\<close> the printer after the left operand and \<open>v2\<close> the printer after the right
  operand, the node's text is \<open>resolve\<close> of the left text and of the right operand's
  text, bare or wrapped by that rule.
\<close>

theorem right_operand_parentheses:
  "(printVisit inheritedText left v = Inr v1
      \<and> printVisit inheritedText right (v1\<lparr>stack := snd (pop ''undefined'' (stack v1))\<rparr>) = Inr v2
      \<and> printResolve t
            (if isValueExpr left \<or> isFactorialExpr left \<or> isRefExpr left
                \<or> (isBinaryExpr left
                    \<and> (tokenField left = Some DIVI \<or> tokenField left = Some t
                        \<or> tokenField left = Some POW))
             then fst (pop ''undefined'' (stack v1))
             else ''('' @ fst (pop ''undefined'' (stack v1)) @ '')'')
            (if claimedRightBare t right \<or> (isBinaryExpr right \<and> tokenField right = Some POW)
             then fst (pop ''undefined'' (stack v2))
             else ''('' @ fst (pop ''undefined'' (stack v2)) @ '')'')
          = Inr s
    \<longrightarrow> printVisit inheritedText (BinaryExpr left t right) v
          = Inr (printFinish (v2\<lparr>stack := s # snd (pop ''undefined'' (stack v2))\<rparr>)))
   \<and> printProgram inheritedText ''out = 3 * (1 + 2)'' = Inr ''out = 3 &times; (1 &plus; 2)<br>''
   \<and> printProgram inheritedText ''out = 2 ^ (3 + 4)'' = Inr ''out = 2<sup>3 &plus; 4</sup><br>''
   \<and> printProgram inheritedText ''out = 2 * 3 ^ 4'' = Inr ''out = 2 &times; 3<sup>4</sup><br>''"
proof (intro conjI impI)
  assume h: "printVisit inheritedText left v = Inr v1
      \<and> printVisit inheritedText right (v1\<lparr>stack := snd (pop ''undefined'' (stack v1))\<rparr>) = Inr v2
      \<and> printResolve t
            (if isValueExpr left \<or> isFactorialExpr left \<or> isRefExpr left
                \<or> (isBinaryExpr left
                    \<and> (tokenField left = Some DIVI \<or> tokenField left = Some t
                        \<or> tokenField left = Some POW))
             then fst (pop ''undefined'' (stack v1))
             else ''('' @ fst (pop ''undefined'' (stack v1)) @ '')'')
            (if claimedRightBare t right \<or> (isBinaryExpr right \<and> tokenField right = Some POW)
             then fst (pop ''undefined'' (stack v2))
             else ''('' @ fst (pop ''undefined'' (stack v2)) @ '')'')
          = Inr s"
  define lc where "lc = (isValueExpr left \<or> isFactorialExpr left
                    \<or> (isBinaryExpr left
                        \<and> (tokenField left = Some DIVI \<or> tokenField left = Some t
                            \<or> tokenField left = Some POW))
                    \<or> isRefExpr left)"
  define rc where "rc = (isValueExpr right \<or> isFactorialExpr right
                           \<or> t = POW
                           \<or> (isBinaryExpr right
                               \<and> (tokenField right = Some DIVI \<or> tokenField right = Some t)
                               \<or> tokenField right = Some POW)
                           \<or> isRefExpr right)"
  define ls where "ls = fst (pop ''undefined'' (stack v1))"
  define rs where "rs = fst (pop ''undefined'' (stack v2))"
  have visit: "printVisit inheritedText (BinaryExpr left t right) v
      = (case printResolve t (if lc then ls else ''('' @ ls @ '')'')
               (if rc then rs else ''('' @ rs @ '')'') of
           Inl e \<Rightarrow> Inl e
         | Inr s \<Rightarrow> Inr (printFinish (v2\<lparr>stack := s # snd (pop ''undefined'' (stack v2))\<rparr>)))"
    unfolding lc_def rc_def ls_def rs_def using h
    by (simp add: Let_def case_prod_beta split del: if_split)
  have l: "lc = (isValueExpr left \<or> isFactorialExpr left \<or> isRefExpr left
                \<or> (isBinaryExpr left
                    \<and> (tokenField left = Some DIVI \<or> tokenField left = Some t
                        \<or> tokenField left = Some POW)))"
    unfolding lc_def by blast
  have r: "rc = (claimedRightBare t right \<or> (isBinaryExpr right \<and> tokenField right = Some POW))"
    unfolding rc_def by (cases right) (auto simp: claimedRightBare_def)
  from h have "printResolve t (if lc then ls else ''('' @ ls @ '')'')
      (if rc then rs else ''('' @ rs @ '')'') = Inr s"
    unfolding l r ls_def rs_def by blast
  with visit show "printVisit inheritedText (BinaryExpr left t right) v
          = Inr (printFinish (v2\<lparr>stack := s # snd (pop ''undefined'' (stack v2))\<rparr>))"
    by simp
next
  show "printProgram inheritedText ''out = 3 * (1 + 2)'' = Inr ''out = 3 &times; (1 &plus; 2)<br>''"
    by code_simp
next
  show "printProgram inheritedText ''out = 2 ^ (3 + 4)'' = Inr ''out = 2<sup>3 &plus; 4</sup><br>''"
    by code_simp
next
  show "printProgram inheritedText ''out = 2 * 3 ^ 4'' = Inr ''out = 2 &times; 3<sup>4</sup><br>''"
    by code_simp
qed

theorem right_operand_parentheses_witness:
  "printVisit id
     (BinaryExpr (ValueExpr (Some ''2'')) MULT
        (BinaryExpr (ValueExpr (Some ''3'')) POW (ValueExpr (Some ''4''))))
     newPrinterVisitor
   = Inr (newPrinterVisitor\<lparr>stack := [''2 &times; 3<sup>4</sup>'']\<rparr>)"
proof -
  let ?left = "ValueExpr (Some ''2'')"
  let ?right = "BinaryExpr (ValueExpr (Some ''3'')) POW (ValueExpr (Some ''4''))"
  let ?v1 = "newPrinterVisitor\<lparr>stack := [''2'']\<rparr>"
  let ?v2 = "newPrinterVisitor\<lparr>stack := [''3<sup>4</sup>'']\<rparr>"
  let ?s = "''2 &times; 3<sup>4</sup>''"
  have a: "printVisit id ?left newPrinterVisitor = Inr ?v1" by code_simp
  have b: "printVisit id ?right (?v1\<lparr>stack := snd (pop ''undefined'' (stack ?v1))\<rparr>) = Inr ?v2"
    by code_simp
  have c: "printResolve MULT
            (if isValueExpr ?left \<or> isFactorialExpr ?left \<or> isRefExpr ?left
                \<or> (isBinaryExpr ?left
                    \<and> (tokenField ?left = Some DIVI \<or> tokenField ?left = Some MULT
                        \<or> tokenField ?left = Some POW))
             then fst (pop ''undefined'' (stack ?v1))
             else ''('' @ fst (pop ''undefined'' (stack ?v1)) @ '')'')
            (if claimedRightBare MULT ?right \<or> (isBinaryExpr ?right \<and> tokenField ?right = Some POW)
             then fst (pop ''undefined'' (stack ?v2))
             else ''('' @ fst (pop ''undefined'' (stack ?v2)) @ '')'')
          = Inr ?s"
    by code_simp
  have d: "printFinish (?v2\<lparr>stack := ?s # snd (pop ''undefined'' (stack ?v2))\<rparr>)
      = newPrinterVisitor\<lparr>stack := [?s]\<rparr>"
    by code_simp
  from right_operand_parentheses[where inheritedText = id and left = ?left and t = MULT
      and right = ?right and v = newPrinterVisitor and ?v1.0 = ?v1 and ?v2.0 = ?v2 and s = ?s]
    a b c
  have "printVisit id (BinaryExpr ?left MULT ?right) newPrinterVisitor
      = Inr (printFinish (?v2\<lparr>stack := ?s # snd (pop ''undefined'' (stack ?v2))\<rparr>))"
    by blast
  with d show ?thesis by simp
qed

text \<open>
  C7 at a reference under a sign. \<open>visitUnaryExpr\<close> leaves a literal and a factorial bare
  but not a reference: \<open>out = -x\<close> prints with \<open>x\<close> in parentheses, while
  \<open>visitFactorialExpr\<close> prints \<open>out = !x\<close> bare.
\<close>

theorem unary_reference_parenthesized:
  "printProgram inheritedText ''out = -x'' = Inr ''out = &minus;(x)<br>''
   \<and> printProgram inheritedText ''out = !x'' = Inr ''out = !x<br>''
   \<and> printProgram inheritedText ''out = -2'' = Inr ''out = &minus;2<br>''"
  by code_simp

text \<open>
  C5 at an inherited name. The symbol table and the printer's table are object literals,
  so a read of \<open>toString\<close> finds the member of \<open>Object.prototype\<close>: the evaluator does
  not throw and binds \<open>out\<close> to that member, and the printer prints the host's text for
  it, not the identifier. A name that is in neither table nor inherited, such as \<open>z\<close>,
  makes the evaluator throw and the printer print the name.
\<close>

theorem inherited_names_are_not_undefined:
  "calculate mathPow ''out = toString'' = Some (Inr Foreign)
   \<and> printProgram inheritedText ''out = toString''
       = Inr (''out = '' @ inheritedText ''toString'' @ ''<br>'')
   \<and> calculate mathPow ''out = z'' = Some (Inl (UndefinedSymbol ''z''))
   \<and> printProgram inheritedText ''out = z'' = Inr ''out = z<br>''"
proof (intro conjI)
  show "calculate mathPow ''out = toString'' = Some (Inr Foreign)"
    by code_simp
next
  have p: "parseText ''out = toString''
      = Inr (StatementListExpr [AssignExpr (mkToken ID (Some ''out''))
                                  (RefExpr (mkToken ID (Some ''toString'')))])"
    by code_simp
  have g: "getProperty constTable ''toString'' = Inherited"
    by code_simp
  show "printProgram inheritedText ''out = toString''
       = Inr (''out = '' @ inheritedText ''toString'' @ ''<br>'')"
    by (simp add: printProgram_def interpretPrint_def p g newPrinterVisitor_def printerOutput_def
        printFinish_def pop_def stringOf_def mkToken_def)
next
  show "calculate mathPow ''out = z'' = Some (Inl (UndefinedSymbol ''z''))"
    by code_simp
next
  show "printProgram inheritedText ''out = z'' = Inr ''out = z<br>''"
    by code_simp
qed

section \<open>White space and line ends\<close>

text \<open>
  C8 at a line feed after a space. \<open>readWhiteSpace\<close> reads with \<open>\s\<close>, which matches
  the line feed, so on a space followed by a line feed \<open>nextToken\<close> consumes both and
  returns no \<open>EOL\<close> token; a line feed at the cursor itself gives \<open>EOL\<close>. The program
  \<open>out = 2\<close>, space, line feed, \<open>3\<close> therefore evaluates as \<open>2 * 3\<close>, while without the
  space it is a syntax error.
\<close>

theorem newline_after_space_is_swallowed:
  "nextToken \<lparr>ltext = [CHR 0x20, CHR 0x0A], lexCursor = 0\<rparr>
     = Inr (mkToken EOF None, \<lparr>ltext = [CHR 0x20, CHR 0x0A], lexCursor = 2\<rparr>)
   \<and> nextToken \<lparr>ltext = [CHR 0x0A], lexCursor = 0\<rparr>
     = Inr (mkToken EOL (Some [CHR 0x0A]), \<lparr>ltext = [CHR 0x0A], lexCursor = 1\<rparr>)
   \<and> calculate mathPow (''out = 2 '' @ [CHR 0x0A] @ ''3'') = Some (Inr (Num (Finite 6)))
   \<and> calculate mathPow (''out = 2'' @ [CHR 0x0A] @ ''3'') = Some (Inl (SyntaxError ID NUMBER))"
  by code_simp

end
